theory Spec2Isabelle
  imports Complex_Main "HOL-Library.Multiset"
begin

section \<open>Series of floating-point cells\<close>

text \<open>
  The engine of \<^verbatim>\<open>src/risk_map.py\<close> works on pandas Series of floats. A Series is
  modelled as the list of its cells in index order; a cell is \<open>Some v\<close> for a finite
  value \<open>v\<close> and \<open>None\<close> for NaN (a missing value). Finite values are real numbers
  and, in the main model, arithmetic is exact: rounding and overflow of IEEE doubles
  are not represented, and the only infinities that the engine itself can create (a
  division by a zero area) are handled where they arise. The \<^verbatim>\<open>z_score\<close> branch of
  the normaliser, whose test \<^verbatim>\<open>std_val > 0\<close> depends on rounding, is modelled a
  second time in binary64 arithmetic.
\<close>

type_synonym series = "real option list"

datatype error =
    NoZipCodeData
  | AreaColumnNotFound string
  | UnknownNormalizationMethod string
  | RiskScoresNotCalculated
  | KeyError string

text \<open>\<^verbatim>\<open>Series.fillna(0)\<close>: every NaN becomes 0, so the result holds no NaN.\<close>

definition fillna0 :: "series \<Rightarrow> real list" where
  "fillna0 s = map (\<lambda>c. case c of None \<Rightarrow> 0 | Some v \<Rightarrow> v) s"

text \<open>The reductions of pandas skip NaN; on a Series without any value they give NaN.\<close>

definition dropna :: "series \<Rightarrow> real list" where
  "dropna s = map the (filter (\<lambda>c. c \<noteq> None) s)"

definition series_min :: "series \<Rightarrow> real option" where
  "series_min s = (if dropna s = [] then None else Some (Min (set (dropna s))))"

definition series_max :: "series \<Rightarrow> real option" where
  "series_max s = (if dropna s = [] then None else Some (Max (set (dropna s))))"

definition series_mean :: "series \<Rightarrow> real option" where
  "series_mean s =
     (if dropna s = [] then None
      else Some (sum_list (dropna s) / real (length (dropna s))))"

text \<open>
  \<^verbatim>\<open>Series.std()\<close> is the sample standard deviation (one delta degree of freedom): with
  fewer than two values it is NaN.
\<close>

definition series_std :: "series \<Rightarrow> real option" where
  "series_std s =
     (case series_mean s of
        None \<Rightarrow> None
      | Some avg \<Rightarrow>
          if length (dropna s) \<le> 1 then None
          else Some (sqrt (sum_list (map (\<lambda>v. (avg - v)\<^sup>2) (dropna s))
                           / real (length (dropna s) - 1))))"

section \<open>Normalisation of one risk factor\<close>

text \<open>
  \<^verbatim>\<open>RiskMap.normalize_risk_factor\<close>, the \<^verbatim>\<open>min_max\<close> branch (lines 176 to 181). A
  comparison with NaN is false, so a Series without values takes the \<^verbatim>\<open>else\<close> branch.
  The last step is the \<^verbatim>\<open>fillna(0)\<close> of line 194.
\<close>

definition min_max :: "series \<Rightarrow> real list" where
  "min_max s =
     (case (series_min s, series_max s) of
        (Some min_val, Some max_val) \<Rightarrow>
          if max_val - min_val > 0
          then fillna0 (map (map_option (\<lambda>v. (v - min_val) / (max_val - min_val))) s)
          else fillna0 (replicate (length s) (Some 0))
      | _ \<Rightarrow> fillna0 (replicate (length s) (Some 0)))"

text \<open>The \<^verbatim>\<open>z_score\<close> branch (lines 183 to 190), followed by the same \<^verbatim>\<open>fillna(0)\<close>.\<close>

definition z_score :: "series \<Rightarrow> real list" where
  "z_score s =
     (case (series_mean s, series_std s) of
        (Some mean_val, Some std_val) \<Rightarrow>
          if std_val > 0
          then fillna0 (map (map_option (\<lambda>v. 1 / (1 + exp (- ((v - mean_val) / std_val))))) s)
          else fillna0 (replicate (length s) (Some (1 / 2)))
      | _ \<Rightarrow> fillna0 (replicate (length s) (Some (1 / 2))))"

definition normalize_risk_factor :: "series \<Rightarrow> string \<Rightarrow> error + real list" where
  "normalize_risk_factor s method =
     (if method = ''min_max'' then Inr (min_max s)
      else if method = ''z_score'' then Inr (z_score s)
      else Inl (UnknownNormalizationMethod method))"

section \<open>Classification\<close>

datatype category = Low | Medium | High | Very_High

text \<open>
  \<^verbatim>\<open>pandas.cut(x, bins, labels)\<close> with its defaults \<^verbatim>\<open>right=True\<close> and
  \<^verbatim>\<open>include_lowest=False\<close>: the bins are the half-open intervals \<open>(lo, hi]\<close> between
  consecutive edges, and a value in none of them is NaN (here \<open>None\<close>).
\<close>

fun cut :: "real \<Rightarrow> real list \<Rightarrow> 'a list \<Rightarrow> 'a option" where
  "cut x (lo # hi # bins) (l # labels) =
     (if lo < x \<and> x \<le> hi then Some l else cut x (hi # bins) labels)"
| "cut x _ _ = None"

text \<open>Lines 282 to 286 of \<^verbatim>\<open>calculate_risk_scores\<close>.\<close>

definition risk_category_of :: "real \<Rightarrow> category option" where
  "risk_category_of score = cut score [0, 0.25, 0.5, 0.75, 1.0] [Low, Medium, High, Very_High]"

section \<open>The engine\<close>

text \<open>
  The area table is a DataFrame: an index of \<open>nrows\<close> rows and named numeric columns.
  The geometry column is opaque to the engine; what the engine reads from it is the
  area of each row's shape after reprojection to EPSG:3857, in square metres, which
  the geometry library computes (the reprojection is taken to succeed). \<open>geometry\<close>
  holds these areas, and is \<open>None\<close> for a table without geometry.
\<close>

record table =
  nrows :: nat
  columns :: "string \<rightharpoonup> series"
  geometry :: "series option"

text \<open>One row of the result table of \<^verbatim>\<open>calculate_risk_scores\<close>. A raw factor column that
  the source leaves out of the result is \<open>None\<close>.\<close>

record risk_row =
  row_index :: nat
  population_density :: real
  population_density_norm :: real
  bird_density :: "real option"
  bird_density_norm :: real
  water_proximity :: "real option"
  water_proximity_norm :: real
  healthcare_capacity :: "real option"
  healthcare_capacity_norm :: real
  vulnerability_index :: "real option"
  vulnerability_index_norm :: real
  risk_score :: real
  risk_category :: "category option"

record engine =
  zip_code_data :: "table option"
  risk_scores :: "risk_row list option"
  risk_map_gdf :: "(table \<times> risk_row list) option"
  risk_weights :: "(string \<times> real) list"

definition default_weights :: "(string \<times> real) list" where
  "default_weights =
     [(''population_density'', 0.3), (''bird_density'', 0.4), (''water_proximity'', 0.15),
      (''healthcare_capacity'', 0.1), (''vulnerability_index'', 0.05)]"

text \<open>
  \<^verbatim>\<open>RiskMap.__init__\<close> (lines 63 to 81). A dict is an association list of its items.
  \<^verbatim>\<open>risk_weights if risk_weights else default_weights\<close> takes the defaults for \<^verbatim>\<open>None\<close>
  and for an empty dict, which is falsy.
\<close>

definition init :: "table option \<Rightarrow> (string \<times> real) list option \<Rightarrow> engine" where
  "init zcd rw =
     (let weights = (case rw of None \<Rightarrow> default_weights
                     | Some ws \<Rightarrow> if ws \<noteq> [] then ws else default_weights);
          total_weight = sum_list (map snd weights)
      in \<lparr>zip_code_data = zcd, risk_scores = None, risk_map_gdf = None,
          risk_weights = (if total_weight > 0
                          then map (\<lambda>(k, v). (k, v / total_weight)) weights
                          else weights)\<rparr>)"

text \<open>\<^verbatim>\<open>self.risk_weights.get(k, 0)\<close>.\<close>

definition weight_get :: "(string \<times> real) list \<Rightarrow> string \<Rightarrow> real" where
  "weight_get ws k = (case map_of ws k of None \<Rightarrow> 0 | Some w \<Rightarrow> w)"

text \<open>
  One cell of \<^verbatim>\<open>population / area\<close> after \<^verbatim>\<open>replace([inf, -inf], 0).fillna(0)\<close>
  (lines 153 to 155): a division by a zero area gives an infinity or NaN, and a NaN
  operand gives NaN; all of them end as 0.
\<close>

definition density_cell :: "real option \<Rightarrow> real option \<Rightarrow> real" where
  "density_cell p a =
     (case (p, a) of
        (Some x, Some y) \<Rightarrow> if y = 0 then 0 else x / y
      | _ \<Rightarrow> 0)"

text \<open>
  Lines 144 to 151 of \<^verbatim>\<open>calculate_population_density\<close>: when the table has no area
  column, line 149 stores the area derived from the geometry (square metres divided
  by \<open>10\<^sup>6\<close>) as a new column of the engine's table; without geometry the method
  raises.
\<close>

definition ensure_area_column :: "table \<Rightarrow> string \<Rightarrow> error + table" where
  "ensure_area_column t area_col =
     (if columns t area_col = None
      then (case geometry t of
              Some g \<Rightarrow>
                Inr (t\<lparr>columns := (columns t)
                        (area_col \<mapsto> map (map_option (\<lambda>a. a / 1000000)) g)\<rparr>)
            | None \<Rightarrow> Inl (AreaColumnNotFound area_col))
      else Inr t)"

text \<open>
  \<^verbatim>\<open>RiskMap.calculate_population_density\<close> (lines 141 to 157). The method returns its
  value or raises, and in both cases leaves the engine in a state, so the model
  returns both. Reading a column that does not exist raises \<^verbatim>\<open>KeyError\<close>.
\<close>

definition calculate_population_density ::
  "engine \<Rightarrow> string \<Rightarrow> string \<Rightarrow> (error + real list) \<times> engine" where
  "calculate_population_density e population_col area_col =
     (case zip_code_data e of
        None \<Rightarrow> (Inl NoZipCodeData, e)
      | Some t \<Rightarrow>
          (case ensure_area_column t area_col of
             Inl err \<Rightarrow> (Inl err, e)
           | Inr t1 \<Rightarrow>
               (let e1 = e\<lparr>zip_code_data := Some t1\<rparr> in
                case columns t1 population_col of
                  None \<Rightarrow> (Inl (KeyError population_col), e1)
                | Some population \<Rightarrow>
                    (case columns t1 area_col of
                       None \<Rightarrow> (Inl (KeyError area_col), e1)
                     | Some area \<Rightarrow> (Inr (map2 density_cell population area), e1)))))"

text \<open>
  The test \<^verbatim>\<open>col and col in self.zip_code_data.columns\<close> that guards each optional
  factor, with the column it selects. \<^verbatim>\<open>None\<close> and the empty name are falsy.
\<close>

definition requested_column :: "table \<Rightarrow> string option \<Rightarrow> series option" where
  "requested_column t col =
     (case col of None \<Rightarrow> None | Some c \<Rightarrow> if c = [] then None else columns t c)"

text \<open>
  One optional factor of \<^verbatim>\<open>calculate_risk_scores\<close> (the four blocks of lines 239 to
  270 share this shape): for a requested column of the table, the raw column with
  NaN filled by 0 and its normalisation; otherwise no raw column and the constant 0.
\<close>

definition optional_factor ::
  "table \<Rightarrow> string option \<Rightarrow> error + (real list option \<times> real list)" where
  "optional_factor t col =
     (case requested_column t col of
        Some raw \<Rightarrow>
          (case normalize_risk_factor (map Some (fillna0 raw)) ''min_max'' of
             Inl err \<Rightarrow> Inl err
           | Inr normalized \<Rightarrow> Inr (Some (fillna0 raw), normalized))
      | None \<Rightarrow> Inr (None, replicate (nrows t) 0))"

text \<open>Lines 273 to 279: the weighted sum of one row.\<close>

definition composite :: "(string \<times> real) list \<Rightarrow> real \<Rightarrow> real \<Rightarrow> real \<Rightarrow> real \<Rightarrow> real \<Rightarrow> real" where
  "composite ws pd bd wp hc vi =
     pd * weight_get ws ''population_density'' +
     bd * weight_get ws ''bird_density'' +
     wp * weight_get ws ''water_proximity'' +
     hc * weight_get ws ''healthcare_capacity'' +
     vi * weight_get ws ''vulnerability_index''"

text \<open>
  \<^verbatim>\<open>RiskMap.calculate_risk_scores\<close> (lines 228 to 298). The result DataFrame is the
  list of its rows. The healthcare factor is inverted only when its column is
  present (line 260); otherwise its contribution is the constant 0 (line 262).
  \<open>risk_map_gdf\<close> is the concatenation of the table and the result.
\<close>

definition calculate_risk_scores ::
  "engine \<Rightarrow> string \<Rightarrow> string \<Rightarrow> string option \<Rightarrow> string option \<Rightarrow> string option
     \<Rightarrow> string option \<Rightarrow> (error + risk_row list) \<times> engine" where
  "calculate_risk_scores e population_col area_col bird_density_col water_proximity_col
      healthcare_col vulnerability_col =
     (case zip_code_data e of
        None \<Rightarrow> (Inl NoZipCodeData, e)
      | Some t0 \<Rightarrow>
     (case calculate_population_density e population_col area_col of
        (Inl err, e1) \<Rightarrow> (Inl err, e1)
      | (Inr pop_density, e1) \<Rightarrow>
     (case zip_code_data e1 of
        None \<Rightarrow> (Inl NoZipCodeData, e1)
      | Some t \<Rightarrow>
     (case normalize_risk_factor (map Some pop_density) ''min_max'' of
        Inl err \<Rightarrow> (Inl err, e1)
      | Inr pop_norm \<Rightarrow>
     (case optional_factor t bird_density_col of
        Inl err \<Rightarrow> (Inl err, e1)
      | Inr (bird, bird_norm) \<Rightarrow>
     (case optional_factor t water_proximity_col of
        Inl err \<Rightarrow> (Inl err, e1)
      | Inr (water, water_norm) \<Rightarrow>
     (case optional_factor t healthcare_col of
        Inl err \<Rightarrow> (Inl err, e1)
      | Inr (healthcare, healthcare_norm) \<Rightarrow>
     (case optional_factor t vulnerability_col of
        Inl err \<Rightarrow> (Inl err, e1)
      | Inr (vulnerability, vulnerability_norm) \<Rightarrow>
     (let healthcare_inv = (case healthcare of
                              Some _ \<Rightarrow> map (\<lambda>x. 1 - x) healthcare_norm
                            | None \<Rightarrow> healthcare_norm);
          results = map (\<lambda>i.
            let score = composite (risk_weights e1) (pop_norm ! i) (bird_norm ! i)
                          (water_norm ! i) (healthcare_inv ! i) (vulnerability_norm ! i)
            in \<lparr>row_index = i,
                population_density = pop_density ! i,
                population_density_norm = pop_norm ! i,
                bird_density = map_option (\<lambda>c. c ! i) bird,
                bird_density_norm = bird_norm ! i,
                water_proximity = map_option (\<lambda>c. c ! i) water,
                water_proximity_norm = water_norm ! i,
                healthcare_capacity = map_option (\<lambda>c. c ! i) healthcare,
                healthcare_capacity_norm = healthcare_inv ! i,
                vulnerability_index = map_option (\<lambda>c. c ! i) vulnerability,
                vulnerability_index_norm = vulnerability_norm ! i,
                risk_score = score,
                risk_category = risk_category_of score\<rparr>) [0..<nrows t]
      in (Inr results,
          e1\<lparr>risk_scores := Some results, risk_map_gdf := Some (t, results)\<rparr>))))))))))"

text \<open>
  A DataFrame keeps every column as long as its index; the row-wise reads above are
  in range for such a table.
\<close>

definition wf_table :: "table \<Rightarrow> bool" where
  "wf_table t \<longleftrightarrow>
     (\<forall>c col. columns t c = Some col \<longrightarrow> length col = nrows t) \<and>
     (\<forall>g. geometry t = Some g \<longrightarrow> length g = nrows t)"

section \<open>Ranking queries\<close>

text \<open>
  \<^verbatim>\<open>sort_values('risk_score', ascending=False)\<close>: the rows in descending order of
  score. The order that pandas gives to rows of equal score is not fixed by the
  source; the model keeps them in their previous order.
\<close>

definition sort_values_desc :: "risk_row list \<Rightarrow> risk_row list" where
  "sort_values_desc rs = sort_key (\<lambda>r. - risk_score r) rs"

text \<open>
  \<^verbatim>\<open>DataFrame.nlargest(n, 'risk_score')\<close>: the first \<open>n\<close> rows in descending order
  of score, and no row when \<open>n\<close> is not positive. As for the sort, the model keeps
  rows of equal score in order of appearance.
\<close>

definition nlargest :: "int \<Rightarrow> risk_row list \<Rightarrow> risk_row list" where
  "nlargest n rs = take (nat n) (sort_key (\<lambda>r. - risk_score r) rs)"

text \<open>
  \<^verbatim>\<open>RiskMap.get_high_risk_zips\<close> (lines 513 to 521). \<^verbatim>\<open>if top_n:\<close> holds when
  \<^verbatim>\<open>top_n\<close> is neither \<^verbatim>\<open>None\<close> nor 0.
\<close>

definition get_high_risk_zips ::
  "engine \<Rightarrow> real \<Rightarrow> int option \<Rightarrow> (error + risk_row list) \<times> engine" where
  "get_high_risk_zips e threshold top_n =
     (case risk_scores e of
        None \<Rightarrow> (Inl RiskScoresNotCalculated, e)
      | Some scores \<Rightarrow>
          (let high_risk = filter (\<lambda>r. risk_score r \<ge> threshold) scores;
               high_risk' = (case top_n of
                               None \<Rightarrow> high_risk
                             | Some n \<Rightarrow> if n \<noteq> 0 then nlargest n scores else high_risk)
           in (Inr (sort_values_desc high_risk'), e)))"

section \<open>The call of the normaliser on a shared Series\<close>

text \<open>
  Python passes the Series by reference. Each pandas operation in the body of
  \<^verbatim>\<open>normalize_risk_factor\<close> (\<^verbatim>\<open>series - min_val\<close>, the division, \<^verbatim>\<open>1 / (1 + np.exp(..))\<close>,
  \<^verbatim>\<open>pd.Series(0, index=series.index)\<close>, \<^verbatim>\<open>fillna(0)\<close> without \<^verbatim>\<open>inplace\<close>) builds a new
  Series, and the body never assigns into its argument. On a store of Series
  objects, addressed by their position, the call reads the argument (an address of
  the store) and allocates the returned Series at the next free address; a call that
  raises allocates nothing.
\<close>

definition normalize_risk_factor_call ::
  "series list \<Rightarrow> nat \<Rightarrow> string \<Rightarrow> (error + nat) \<times> series list" where
  "normalize_risk_factor_call store a method =
     (case normalize_risk_factor (store ! a) method of
        Inl err \<Rightarrow> (Inl err, store)
      | Inr normalized \<Rightarrow> (Inr (length store), store @ [map Some normalized]))"

section \<open>The z-score branch in binary64 arithmetic\<close>

text \<open>
  pandas computes on IEEE 754 doubles. \<open>round_to_double\<close> rounds a real number to the
  nearest number with a significand of 53 bits, ties to the even significand;
  overflow and subnormal results are not represented. Each arithmetic operation
  returns the rounded exact result. The square root is correctly rounded by the
  standard; the exponential of numpy is accurate to the last place and is taken to
  be correctly rounded as well.
\<close>

definition round_half_even :: "real \<Rightarrow> int" where
  "round_half_even m =
     (let f = \<lfloor>m\<rfloor> in
      if m - of_int f < 1 / 2 then f
      else if 1 / 2 < m - of_int f then f + 1
      else if even f then f else f + 1)"

definition round_to_double :: "real \<Rightarrow> real" where
  "round_to_double x =
     (if x = 0 then 0
      else let e = \<lfloor>log 2 \<bar>x\<bar>\<rfloor>; q = 2 powi (e - 52)
           in q * of_int (round_half_even (x / q)))"

definition fadd :: "real \<Rightarrow> real \<Rightarrow> real" where "fadd x y = round_to_double (x + y)"
definition fsub :: "real \<Rightarrow> real \<Rightarrow> real" where "fsub x y = round_to_double (x - y)"
definition fmul :: "real \<Rightarrow> real \<Rightarrow> real" where "fmul x y = round_to_double (x * y)"
definition fdiv :: "real \<Rightarrow> real \<Rightarrow> real" where "fdiv x y = round_to_double (x / y)"
definition fsqrt :: "real \<Rightarrow> real" where "fsqrt x = round_to_double (sqrt x)"
definition fexp :: "real \<Rightarrow> real" where "fexp x = round_to_double (exp x)"

text \<open>
  \<^verbatim>\<open>values.sum()\<close>: numpy adds the values of a short array one after the other.
\<close>

definition fsum :: "real list \<Rightarrow> real" where
  "fsum vs = foldl fadd 0 vs"

text \<open>
  \<^verbatim>\<open>Series.mean()\<close> and \<^verbatim>\<open>Series.std()\<close> as pandas computes them, skipping NaN: the
  mean is the sum divided by the count; the variance is the sum of the squares of
  \<^verbatim>\<open>avg - values\<close> divided by the count less one; the standard deviation is its
  square root, and NaN for fewer than two values.
\<close>

definition mean_f64 :: "series \<Rightarrow> real option" where
  "mean_f64 s =
     (if dropna s = [] then None
      else Some (fdiv (fsum (dropna s)) (real (length (dropna s)))))"

definition std_f64 :: "series \<Rightarrow> real option" where
  "std_f64 s =
     (case mean_f64 s of
        None \<Rightarrow> None
      | Some avg \<Rightarrow>
          if length (dropna s) \<le> 1 then None
          else Some (fsqrt (fdiv (fsum (map (\<lambda>v. fmul (fsub avg v) (fsub avg v)) (dropna s)))
                              (real (length (dropna s) - 1)))))"

text \<open>Lines 183 to 190 and 194 of \<^verbatim>\<open>normalize_risk_factor\<close> on doubles.\<close>

definition z_score_f64 :: "series \<Rightarrow> real list" where
  "z_score_f64 s =
     (case (mean_f64 s, std_f64 s) of
        (Some mean_val, Some std_val) \<Rightarrow>
          if std_val > 0
          then fillna0 (map (map_option
                 (\<lambda>v. fdiv 1 (fadd 1 (fexp (- (fdiv (fsub v mean_val) std_val)))))) s)
          else fillna0 (replicate (length s) (Some (1 / 2)))
      | _ \<Rightarrow> fillna0 (replicate (length s) (Some (1 / 2))))"

section \<open>Example inputs\<close>

text \<open>Three areas of one square kilometre with populations 1000, 5000 and 2000 and no
  optional factor column.\<close>

definition three_area_table :: table where
  "three_area_table = \<lparr>nrows = 3,
     columns = [''population'' \<mapsto> [Some 1000, Some 5000, Some 2000],
                ''area_km2'' \<mapsto> [Some 1, Some 1, Some 1]],
     geometry = None\<rparr>"

text \<open>A Series with a missing cell.\<close>

definition gappy_series :: series where
  "gappy_series = [Some 2, None, Some 5, Some 3]"

text \<open>Two areas given by their shapes only: the area column is missing and the
  geometry measures 2 and 4 square kilometres.\<close>

definition geometry_table :: table where
  "geometry_table = \<lparr>nrows = 2,
     columns = [''population'' \<mapsto> [Some 1000, Some 5000]],
     geometry = Some [Some 2000000, Some 4000000]\<rparr>"

text \<open>The engine after scoring the three areas with the default weights and field
  names, and the shape of its result rows: without optional factors a row carries
  the density, its normalisation and the score.\<close>

definition scored_engine :: engine where
  "scored_engine =
     snd (calculate_risk_scores (init (Some three_area_table) None) ''population'' ''area_km2''
            (Some ''bird_density'') (Some ''water_proximity'') (Some ''healthcare_capacity'')
            (Some ''vulnerability_index''))"

definition score_row :: "nat \<Rightarrow> real \<Rightarrow> real \<Rightarrow> real \<Rightarrow> risk_row" where
  "score_row i d n s = \<lparr>row_index = i, population_density = d, population_density_norm = n,
     bird_density = None, bird_density_norm = 0, water_proximity = None,
     water_proximity_norm = 0, healthcare_capacity = None, healthcare_capacity_norm = 0,
     vulnerability_index = None, vulnerability_index_norm = 0,
     risk_score = s, risk_category = risk_category_of s\<rparr>"

text \<open>Three areas with every factor column of the default field names.\<close>

definition full_table :: table where
  "full_table = \<lparr>nrows = 3,
     columns = [''population'' \<mapsto> [Some 1000, Some 5000, Some 2000],
                ''area_km2'' \<mapsto> [Some 1, Some 2, Some 4],
                ''bird_density'' \<mapsto> [Some 10, Some 30, None],
                ''water_proximity'' \<mapsto> [Some (1 / 2), Some 0, Some 1],
                ''healthcare_capacity'' \<mapsto> [Some 2, Some 6, Some 10],
                ''vulnerability_index'' \<mapsto> [Some (1 / 4), Some (3 / 4), Some (1 / 2)]],
     geometry = None\<rparr>"


text \<open>The double that the literal \<^verbatim>\<open>0.1\<close> denotes.\<close>

definition double_tenth :: real where
  "double_tenth = 3602879701896397 / 2 ^ 55"

text \<open>Three areas, two of them with a negative area value.\<close>

definition negative_area_table :: table where
  "negative_area_table = \<lparr>nrows = 3,
     columns = [''population'' \<mapsto> [Some 1000, Some 600, Some 500],
                ''area_km2'' \<mapsto> [Some 1, Some (- 2), Some (- 1)]],
     geometry = None\<rparr>"

text \<open>Three areas with a bird density column.\<close>

definition bird_table :: table where
  "bird_table = \<lparr>nrows = 3,
     columns = [''population'' \<mapsto> [Some 1000, Some 5000, Some 2000],
                ''area_km2'' \<mapsto> [Some 1, Some 2, Some 4],
                ''bird_density'' \<mapsto> [Some 10, Some 30, None]],
     geometry = None\<rparr>"

section \<open>Notions for stating the properties\<close>

text \<open>The table \<open>t\<close> with the cell of column \<open>c\<close> at row \<open>i\<close> replaced by the value \<open>x\<close>,
  every other cell as it is.\<close>

definition set_cell :: "table \<Rightarrow> string \<Rightarrow> nat \<Rightarrow> real \<Rightarrow> table" where
  "set_cell t c i x =
     (case columns t c of
        None \<Rightarrow> t
      | Some col \<Rightarrow> t\<lparr>columns := (columns t)(c \<mapsto> col[i := Some x])\<rparr>)"

text \<open>The normalised column of an optional factor, as \<open>optional_factor\<close> computes it,
  and the column that enters the weighted sum for the healthcare factor (lines 260
  and 262).\<close>

definition factor_norm :: "table \<Rightarrow> string option \<Rightarrow> real list" where
  "factor_norm t col =
     (case requested_column t col of
        Some raw \<Rightarrow> min_max (map Some (fillna0 raw))
      | None \<Rightarrow> replicate (nrows t) 0)"

definition healthcare_contribution :: "table \<Rightarrow> string option \<Rightarrow> real list" where
  "healthcare_contribution t col =
     (case requested_column t col of
        Some raw \<Rightarrow> map (\<lambda>x. 1 - x) (factor_norm t col)
      | None \<Rightarrow> factor_norm t col)"

text \<open>The area that the density of row \<open>i\<close> is computed from, read from the area column
  or else from the geometry, is not negative (it may be missing).\<close>

definition area_not_negative :: "table \<Rightarrow> string \<Rightarrow> nat \<Rightarrow> bool" where
  "area_not_negative t area_col i =
     (case (case columns t area_col of Some area \<Rightarrow> Some area | None \<Rightarrow> geometry t) of
        Some area \<Rightarrow> (case area ! i of Some y \<Rightarrow> 0 \<le> y | None \<Rightarrow> True)
      | None \<Rightarrow> True)"

section \<open>Classification of a score\<close>

lemma risk_category_of_cases:
  "risk_category_of s =
     (if 0 < s \<and> s \<le> 0.25 then Some Low
      else if 0.25 < s \<and> s \<le> 0.5 then Some Medium
      else if 0.5 < s \<and> s \<le> 0.75 then Some High
      else if 0.75 < s \<and> s \<le> 1 then Some Very_High
      else None)"
  by (simp add: risk_category_of_def)

lemma risk_category_of_unit_interval:
  assumes "0 < s" "s \<le> 1"
  shows "risk_category_of s =
           Some (if s \<le> 0.25 then Low else if s \<le> 0.5 then Medium
                 else if s \<le> 0.75 then High else Very_High)"
  using assms by (simp add: risk_category_of_def)

text \<open>
  Claim C1. The spec has every score of the interval from 0 to 1 classified, with 0 in
  the bucket \<open>Low\<close>. The bins of line 284 are open on the left, so the score 0 is in
  none of them: of the three areas the first has the composite score 0 and its
  category is missing, while the others, at 0.3 and 0.075, are \<open>Medium\<close> and \<open>Low\<close>.
\<close>

theorem zero_score_has_no_category:
  "risk_category_of 0 = None \<and>
   map_sum id (map (\<lambda>r. (risk_score r, risk_category r)))
     (fst (calculate_risk_scores (init (Some three_area_table) None) ''population'' ''area_km2''
            (Some ''bird_density'') (Some ''water_proximity'') (Some ''healthcare_capacity'')
            (Some ''vulnerability_index'')))
     = Inr [(0, None), (3 / 10, Some Medium), (3 / 40, Some Low)]"
  by (simp add: risk_category_of_def calculate_risk_scores_def init_def three_area_table_def
      calculate_population_density_def ensure_area_column_def requested_column_def
      default_weights_def normalize_risk_factor_def min_max_def series_min_def
      series_max_def dropna_def fillna0_def density_cell_def optional_factor_def composite_def
      weight_get_def Let_def upt_rec)

section \<open>Facts about the normaliser\<close>

lemma normalize_min_max [simp]: "normalize_risk_factor s ''min_max'' = Inr (min_max s)"
  by (simp add: normalize_risk_factor_def)

lemma length_fillna0 [simp]: "length (fillna0 s) = length s"
  by (simp add: fillna0_def)

lemma length_min_max [simp]: "length (min_max s) = length s"
  by (simp add: min_max_def split: option.splits)

lemma length_z_score [simp]: "length (z_score s) = length s"
  by (simp add: z_score_def split: option.splits)

lemma dropna_map_Some [simp]: "dropna (map Some xs) = xs"
  by (induction xs) (simp_all add: dropna_def)

lemma fillna0_map_Some [simp]: "fillna0 (map Some xs) = xs"
  by (induction xs) (simp_all add: fillna0_def)

lemma set_dropna: "v \<in> set (dropna s) \<longleftrightarrow> Some v \<in> set s"
  by (force simp: dropna_def)

lemma min_max_range:
  assumes "x \<in> set (min_max s)"
  shows "0 \<le> x \<and> x \<le> 1"
proof (cases "dropna s = []")
  case True
  with assms show ?thesis
    by (auto simp: min_max_def series_min_def series_max_def fillna0_def)
next
  case False
  let ?mn = "Min (set (dropna s))" and ?mx = "Max (set (dropna s))"
  show ?thesis
  proof (cases "?mx - ?mn > 0")
    case spread: True
    from assms False spread obtain c where c: "c \<in> set s"
      and x: "x = (case map_option (\<lambda>v. (v - ?mn) / (?mx - ?mn)) c of None \<Rightarrow> 0 | Some v \<Rightarrow> v)"
      by (auto simp: min_max_def series_min_def series_max_def fillna0_def)
    show ?thesis
    proof (cases c)
      case None
      with x show ?thesis by simp
    next
      case (Some v)
      with c have "v \<in> set (dropna s)" by (simp add: set_dropna)
      then have "?mn \<le> v" "v \<le> ?mx" by simp_all
      with spread Some x show ?thesis by simp
    qed
  next
    case False
    with assms \<open>dropna s \<noteq> []\<close> show ?thesis
      by (auto simp: min_max_def series_min_def series_max_def fillna0_def)
  qed
qed

lemma sigmoid_range: "0 \<le> 1 / (1 + exp (z::real)) \<and> 1 / (1 + exp z) \<le> 1"
proof -
  have "0 < exp z" by simp
  then show ?thesis by (simp add: add_pos_pos less_imp_le)
qed

lemma z_score_range:
  assumes "x \<in> set (z_score s)"
  shows "0 \<le> x \<and> x \<le> 1"
proof -
  have const: "y \<in> set (fillna0 (replicate n (Some (1 / 2)))) \<Longrightarrow> 0 \<le> y \<and> y \<le> 1" for y n
    by (auto simp: fillna0_def)
  show ?thesis
  proof (cases "\<exists>m sd. series_mean s = Some m \<and> series_std s = Some sd \<and> sd > 0")
    case True
    then obtain m sd where ms: "series_mean s = Some m" "series_std s = Some sd" "sd > 0" by blast
    with assms obtain c where "c \<in> set s"
      and x: "x = (case map_option (\<lambda>v. 1 / (1 + exp (- ((v - m) / sd)))) c of None \<Rightarrow> 0 | Some v \<Rightarrow> v)"
      by (auto simp: z_score_def fillna0_def)
    show ?thesis
    proof (cases c)
      case None
      with x show ?thesis by simp
    next
      case (Some v)
      with x sigmoid_range [of "- ((v - m) / sd)"] show ?thesis by simp
    qed
  next
    case False
    with assms have "x \<in> set (fillna0 (replicate (length s) (Some (1 / 2))))"
      by (auto simp: z_score_def split: option.splits if_splits)
    then show ?thesis by (rule const)
  qed
qed

lemma min_max_nth:
  assumes "i < length xs"
  shows "min_max (map Some xs) ! i =
           (if Max (set xs) - Min (set xs) > 0
            then (xs ! i - Min (set xs)) / (Max (set xs) - Min (set xs)) else 0)"
proof -
  from assms have ne: "xs \<noteq> []" by auto
  have "map (map_option f) (map Some xs) = map Some (map f xs)" for f :: "real \<Rightarrow> real"
    by simp
  then show ?thesis
    using assms ne
    by (simp add: min_max_def series_min_def series_max_def fillna0_def del: map_map)
qed

lemma min_max_mono:
  assumes i: "i < length xs" and le: "xs ! i \<le> v"
  shows "min_max (map Some xs) ! i \<le> min_max (map Some (xs[i := v])) ! i"
proof -
  let ?ys = "xs[i := v]"
  let ?mn = "Min (set xs)" and ?mx = "Max (set xs)"
  let ?mn' = "Min (set ?ys)" and ?mx' = "Max (set ?ys)"
  from i have i': "i < length ?ys" by simp
  have new_ge0: "0 \<le> min_max (map Some ?ys) ! i"
    using min_max_range [of "min_max (map Some ?ys) ! i" "map Some ?ys"] i' by simp
  have old_le1: "min_max (map Some xs) ! i \<le> 1"
    using min_max_range [of "min_max (map Some xs) ! i" "map Some xs"] i by simp
  from i have xi: "xs ! i \<in> set xs" by simp
  from i have vi: "v \<in> set ?ys" by (metis i' nth_list_update_eq nth_mem)
  have fin: "finite (set xs)" "finite (set ?ys)" by simp_all
  show ?thesis
  proof (cases "xs ! i = ?mn")
    case True
    then have "min_max (map Some xs) ! i = 0"
      using i by (simp add: min_max_nth)
    with new_ge0 show ?thesis by simp
  next
    case False
    with xi have gt: "?mn < xs ! i"
      by (simp add: order_less_le)
    have "?mn \<in> set xs" using xi by (intro Min_in) auto
    then obtain j where j: "j < length xs" "xs ! j = ?mn"
      by (auto simp: in_set_conv_nth)
    with False have ji: "j \<noteq> i" by auto
    with j have "?ys ! j = ?mn" by simp
    with j have mn_in: "?mn \<in> set ?ys"
      by (metis length_list_update nth_mem)
    have mn_lb: "?mn \<le> y" if "y \<in> set ?ys" for y
    proof -
      from that obtain k where k: "k < length xs" "?ys ! k = y"
        by (auto simp: in_set_conv_nth)
      show ?thesis
      proof (cases "k = i")
        case True
        with k i have "y = v" by simp
        with le gt show ?thesis by simp
      next
        case False
        with k have "y = xs ! k" by simp
        with k show ?thesis by simp
      qed
    qed
    have mn_eq: "?mn' = ?mn"
      using mn_in mn_lb by (intro Min_eqI) auto
    have mx_le: "?mx \<le> ?mx'"
    proof -
      have "?mx \<in> set xs" using xi by (intro Max_in) auto
      then obtain k where k: "k < length xs" "xs ! k = ?mx"
        by (auto simp: in_set_conv_nth)
      show ?thesis
      proof (cases "k = i")
        case True
        with k le have "?mx \<le> v" by simp
        also have "v \<le> ?mx'" using vi by simp
        finally show ?thesis .
      next
        case False
        with k have "?ys ! k = ?mx" by simp
        with k have "?mx \<in> set ?ys" by (metis length_list_update nth_mem)
        then show ?thesis by simp
      qed
    qed
    from gt Max_ge [OF fin(1) xi] have spread: "?mx - ?mn > 0"
      by linarith
    with mx_le mn_eq have spread': "?mx' - ?mn' > 0" by simp
    show ?thesis
    proof (cases "v = ?mx'")
      case True
      with spread' mn_eq i have "min_max (map Some ?ys) ! i = 1"
        by (simp add: min_max_nth)
      with old_le1 show ?thesis by simp
    next
      case False
      have "?mx' \<in> set ?ys" using vi by (intro Max_in) auto
      then obtain k where k: "k < length xs" "?ys ! k = ?mx'"
        by (auto simp: in_set_conv_nth)
      with False i have "k \<noteq> i" by auto
      with k have "xs ! k = ?mx'" by simp
      with k have "?mx' \<le> ?mx" by (metis Max_ge fin(1) nth_mem)
      with mx_le have mx_eq: "?mx' = ?mx" by simp
      have "(xs ! i - ?mn) / (?mx - ?mn) \<le> (v - ?mn) / (?mx - ?mn)"
        using le spread by (simp add: divide_right_mono)
      with spread mx_eq mn_eq i show ?thesis
        by (simp add: min_max_nth)
    qed
  qed
qed

lemma dropna_replicate [simp]: "dropna (replicate n (Some v)) = replicate n v"
  by (induction n) (simp_all add: dropna_def)

lemma fillna0_replicate [simp]: "fillna0 (replicate n (Some v)) = replicate n v"
  by (simp add: fillna0_def)

lemma sum_list_replicate_real: "sum_list (replicate n (v::real)) = real n * v"
  by (induction n) (simp_all add: algebra_simps)

text \<open>
  Claim C4. Called with either method on a Series of the store, the normaliser returns
  a new Series of the same length whose cells are all numbers between 0 and 1, and
  every Series that was in the store before the call, the argument among them, is
  as it was.
\<close>

theorem normalize_risk_factor_unit_range:
  assumes "a < length store" and "method = ''min_max'' \<or> method = ''z_score''"
  shows "\<exists>r store'. normalize_risk_factor_call store a method = (Inr r, store')
           \<and> (\<forall>b < length store. store' ! b = store ! b)
           \<and> length (store' ! r) = length (store ! a)
           \<and> (\<forall>c \<in> set (store' ! r). \<exists>x. c = Some x \<and> 0 \<le> x \<and> x \<le> 1)"
proof -
  from assms(2) obtain out where out: "normalize_risk_factor (store ! a) method = Inr out"
    and len: "length out = length (store ! a)"
    and rng: "\<forall>x \<in> set out. 0 \<le> x \<and> x \<le> 1"
    using min_max_range [of _ "store ! a"] z_score_range [of _ "store ! a"]
    by (auto simp: normalize_risk_factor_def)
  have "normalize_risk_factor_call store a method = (Inr (length store), store @ [map Some out])"
    by (simp add: normalize_risk_factor_call_def out)
  moreover have "\<forall>b < length store. (store @ [map Some out]) ! b = store ! b"
    by (simp add: nth_append)
  moreover have "length ((store @ [map Some out]) ! length store) = length (store ! a)"
    by (simp add: len)
  moreover have "\<forall>c \<in> set ((store @ [map Some out]) ! length store). \<exists>x. c = Some x \<and> 0 \<le> x \<and> x \<le> 1"
    using rng by auto
  ultimately show ?thesis by blast
qed

text \<open>The call at a Series with a missing cell, by the \<^verbatim>\<open>z_score\<close> method.\<close>

theorem normalize_risk_factor_unit_range_witness:
  "\<exists>r store'. normalize_risk_factor_call [gappy_series] 0 ''z_score'' = (Inr r, store')
           \<and> (\<forall>b < 1. store' ! b = [gappy_series] ! b)
           \<and> length (store' ! r) = length gappy_series
           \<and> (\<forall>c \<in> set (store' ! r). \<exists>x. c = Some x \<and> 0 \<le> x \<and> x \<le> 1)"
  using normalize_risk_factor_unit_range [of 0 "[gappy_series]" "''z_score''"]
  by simp

text \<open>
  In exact arithmetic a non-empty Series whose cells all hold the same value
  normalises to all 0 by \<^verbatim>\<open>min_max\<close> and to all 0.5 by \<^verbatim>\<open>z_score\<close>: with one cell the
  standard deviation is NaN, with more it is 0, and neither is greater than 0.
\<close>

lemma zero_spread_series:
  "normalize_risk_factor (replicate (Suc n) (Some v)) ''min_max'' = Inr (replicate (Suc n) 0) \<and>
   normalize_risk_factor (replicate (Suc n) (Some v)) ''z_score'' = Inr (replicate (Suc n) (1 / 2))"
proof -
  let ?s = "replicate (Suc n) (Some v)"
  have mm: "series_min ?s = Some v" "series_max ?s = Some v"
    by (simp_all add: series_min_def series_max_def del: replicate_Suc replicate.simps)
  have mean: "series_mean ?s = Some v"
    by (simp add: series_mean_def sum_list_replicate_real del: replicate_Suc replicate.simps)
  have "map (\<lambda>x. (v - x)\<^sup>2) (replicate (Suc n) v) = replicate (Suc n) 0"
    by simp
  then have std: "series_std ?s = None \<or> series_std ?s = Some 0"
    by (simp add: series_std_def mean sum_list_replicate_real del: replicate_Suc replicate.simps)
  have "min_max ?s = replicate (Suc n) 0"
    by (simp add: min_max_def mm del: replicate_Suc replicate.simps)
  moreover have "z_score ?s = replicate (Suc n) (1 / 2)"
    using std by (auto simp: z_score_def mean simp del: replicate_Suc replicate.simps)
  ultimately show ?thesis
    by (simp add: normalize_risk_factor_def del: replicate_Suc replicate.simps)
qed

section \<open>The z-score of equal doubles\<close>

lemma round_half_even_error: "\<bar>of_int (round_half_even m) - m\<bar> \<le> 1 / 2"
  unfolding round_half_even_def Let_def by (auto split: if_splits)

lemma round_half_even_of_int [simp]: "round_half_even (of_int j) = j"
  by (simp add: round_half_even_def)

lemma binade:
  assumes "x \<noteq> 0"
  shows "2 powi \<lfloor>log 2 \<bar>x\<bar>\<rfloor> \<le> \<bar>x\<bar>" and "\<bar>x\<bar> < 2 powi (\<lfloor>log 2 \<bar>x\<bar>\<rfloor> + 1)"
proof -
  from assms have pos: "0 < \<bar>x\<bar>" by simp
  have p: "(2::real) powr (of_int j) = 2 powi j" for j
    by (rule powr_real_of_int') simp_all
  have "\<lfloor>log 2 \<bar>x\<bar>\<rfloor> = \<lfloor>log 2 \<bar>x\<bar>\<rfloor>" ..
  with floor_log_eq_powr_iff [OF pos, of 2 "\<lfloor>log 2 \<bar>x\<bar>\<rfloor>"]
  have "2 powr (of_int \<lfloor>log 2 \<bar>x\<bar>\<rfloor>) \<le> \<bar>x\<bar>"
    and "\<bar>x\<bar> < 2 powr (of_int (\<lfloor>log 2 \<bar>x\<bar>\<rfloor> + 1))"
    by simp_all
  then show "2 powi \<lfloor>log 2 \<bar>x\<bar>\<rfloor> \<le> \<bar>x\<bar>" and "\<bar>x\<bar> < 2 powi (\<lfloor>log 2 \<bar>x\<bar>\<rfloor> + 1)"
    unfolding p .
qed

lemma binade_unique:
  assumes "2 powi e \<le> \<bar>x\<bar>" "\<bar>x\<bar> < 2 powi (e + 1)"
  shows "\<lfloor>log 2 \<bar>x\<bar>\<rfloor> = e"
proof -
  have "0 < (2::real) powi e" by simp
  with assms(1) have pos: "0 < \<bar>x\<bar>" by linarith
  have p: "(2::real) powr (of_int j) = 2 powi j" for j
    by (rule powr_real_of_int') simp_all
  from assms have "2 powr (of_int e) \<le> \<bar>x\<bar> \<and> \<bar>x\<bar> < 2 powr (of_int (e + 1))"
    unfolding p by simp
  then have "2 powr (of_int e) \<le> \<bar>x\<bar> \<and> \<bar>x\<bar> < 2 powr (of_int e + 1)"
    by simp
  with floor_log_eq_powr_iff [OF pos, of 2 e] show ?thesis by simp
qed

lemma round_to_double_eval:
  assumes "2 powi e \<le> \<bar>x\<bar>" "\<bar>x\<bar> < 2 powi (e + 1)"
  shows "round_to_double x = 2 powi (e - 52) * of_int (round_half_even (x / 2 powi (e - 52)))"
proof -
  have "0 < (2::real) powi e" by simp
  with assms(1) have "0 < \<bar>x\<bar>" by linarith
  then have "x \<noteq> 0" by simp
  with binade_unique [OF assms] show ?thesis
    by (simp add: round_to_double_def Let_def)
qed

lemma round_to_double_error: "\<bar>round_to_double x - x\<bar> \<le> \<bar>x\<bar> / 2 ^ 53"
proof (cases "x = 0")
  case True
  then show ?thesis by (simp add: round_to_double_def)
next
  case False
  define e where "e = \<lfloor>log 2 \<bar>x\<bar>\<rfloor>"
  define q :: real where "q = 2 powi (e - 52)"
  have q: "0 < q" by (simp add: q_def)
  have r: "round_to_double x = q * of_int (round_half_even (x / q))"
    using False by (simp add: round_to_double_def Let_def e_def q_def)
  have "round_to_double x - x = q * (of_int (round_half_even (x / q)) - x / q)"
    using q by (simp add: r algebra_simps)
  then have "\<bar>round_to_double x - x\<bar> = q * \<bar>of_int (round_half_even (x / q)) - x / q\<bar>"
    using q by (simp add: abs_mult)
  also have "\<dots> \<le> q * (1 / 2)"
    using q round_half_even_error [of "x / q"] by (intro mult_left_mono) simp_all
  also have "q * (1 / 2) = 2 powi e / 2 ^ 53"
    by (simp add: q_def power_int_diff)
  also have "\<dots> \<le> \<bar>x\<bar> / 2 ^ 53"
    using binade(1) [OF False] by (simp add: e_def divide_right_mono)
  finally show ?thesis .
qed

lemma round_to_double_exact:
  assumes "\<bar>m\<bar> < 2 ^ 53"
  shows "round_to_double (of_int m * 2 powi k) = of_int m * 2 powi k"
proof (cases "m = 0")
  case True
  then show ?thesis by (simp add: round_to_double_def)
next
  case False
  let ?x = "of_int m * (2::real) powi k"
  have x0: "?x \<noteq> 0" using False by simp
  define e where "e = \<lfloor>log 2 \<bar>?x\<bar>\<rfloor>"
  have lo: "2 powi e \<le> \<bar>?x\<bar>" using binade(1) [OF x0] by (simp add: e_def)
  have "\<bar>?x\<bar> = of_int \<bar>m\<bar> * 2 powi k" by (simp add: abs_mult)
  also have "\<dots> < 2 ^ 53 * 2 powi k"
  proof -
    from assms have "(of_int \<bar>m\<bar> :: real) < of_int (2 ^ 53)" by (simp only: of_int_less_iff)
    then show ?thesis by simp
  qed
  also have "\<dots> = 2 powi (k + 53)" by (simp add: power_int_add)
  finally have "(2::real) powi e < 2 powi (k + 53)" using lo by linarith
  have "e < k + 53"
  proof (rule ccontr)
    assume "\<not> e < k + 53"
    then have "k + 53 \<le> e" by simp
    then have "(2::real) powi (k + 53) \<le> 2 powi e" by (intro power_int_increasing) simp_all
    with \<open>(2::real) powi e < 2 powi (k + 53)\<close> show False by simp
  qed
  then have "0 \<le> k - (e - 52)" by simp
  then obtain n where n: "k - (e - 52) = int n"
    by (rule nonneg_int_cases)
  have "?x / 2 powi (e - 52) = of_int m * 2 powi (k - (e - 52))"
    by (simp add: power_int_diff)
  also have "\<dots> = of_int (m * 2 ^ n)" by (simp add: n)
  finally have "round_half_even (?x / 2 powi (e - 52)) = m * 2 ^ n"
    by (simp only: round_half_even_of_int)
  moreover have "round_to_double ?x = 2 powi (e - 52) * of_int (round_half_even (?x / 2 powi (e - 52)))"
    using x0 unfolding round_to_double_def Let_def e_def by simp
  ultimately have "round_to_double ?x = 2 powi (e - 52) * (of_int m * 2 powi (k - (e - 52)))"
    by (simp add: n)
  also have "\<dots> = ?x" by (simp add: power_int_diff)
  finally show ?thesis .
qed

lemma round_to_double_lower: "0 \<le> x \<Longrightarrow> x * (1 - 1 / 2 ^ 53) \<le> round_to_double x"
proof -
  assume "0 \<le> x"
  with round_to_double_error [of x] have "x - round_to_double x \<le> x / 2 ^ 53" by linarith
  then show ?thesis by (simp add: algebra_simps)
qed

lemma round_to_double_upper: "0 \<le> x \<Longrightarrow> round_to_double x \<le> x * (1 + 1 / 2 ^ 53)"
proof -
  assume "0 \<le> x"
  with round_to_double_error [of x] have "round_to_double x - x \<le> x / 2 ^ 53" by linarith
  then show ?thesis by (simp add: algebra_simps)
qed

lemma exact_pow2: "\<bar>m\<bar> < 2 ^ 53 \<Longrightarrow> round_to_double (of_int m / 2 ^ n) = of_int m / 2 ^ n"
  using round_to_double_exact [of m "- int n"] by (simp add: power_int_minus_divide)

lemma round_tenth: "round_to_double (1 / 10) = 3602879701896397 / 2 ^ 55"
proof -
  have "round_to_double (1 / 10) = 2 powi (- 4 - 52) * of_int (round_half_even ((1 / 10) / 2 powi (- 4 - 52)))"
    by (rule round_to_double_eval) simp_all
  also have "round_half_even ((1 / 10) / 2 powi (- 4 - 52)) = 7205759403792794"
    by (simp add: round_half_even_def Let_def)
  finally show ?thesis by simp
qed

lemma round_three_tenths:
  "round_to_double (10808639105689191 / 2 ^ 55) = 5404319552844596 / 2 ^ 54"
proof -
  have "round_to_double (10808639105689191 / 2 ^ 55)
          = 2 powi (- 2 - 52) * of_int (round_half_even ((10808639105689191 / 2 ^ 55) / 2 powi (- 2 - 52)))"
    by (rule round_to_double_eval) simp_all
  also have "round_half_even ((10808639105689191 / 2 ^ 55) / 2 powi (- 2 - 52)) = 5404319552844596"
    by (simp add: round_half_even_def Let_def)
  finally show ?thesis by simp
qed

lemma round_third_of_sum:
  "round_to_double (5404319552844596 / 2 ^ 54 / 3) = 7205759403792795 / 2 ^ 56"
proof -
  have "round_to_double (5404319552844596 / 2 ^ 54 / 3)
          = 2 powi (- 4 - 52) * of_int (round_half_even ((5404319552844596 / 2 ^ 54 / 3) / 2 powi (- 4 - 52)))"
    by (rule round_to_double_eval) simp_all
  also have "round_half_even ((5404319552844596 / 2 ^ 54 / 3) / 2 powi (- 4 - 52)) = 7205759403792795"
    by (simp add: round_half_even_def Let_def)
  finally show ?thesis by simp
qed

lemma tenth_is_double: "round_to_double (1 / 10) = double_tenth"
  by (simp only: round_tenth double_tenth_def)

lemma sum_of_three_tenths:
  "fsum [double_tenth, double_tenth, double_tenth] = 5404319552844596 / 2 ^ 54"
proof -
  have a: "fadd 0 double_tenth = double_tenth"
    using exact_pow2 [of 3602879701896397 55] by (simp add: fadd_def double_tenth_def)
  have "double_tenth + double_tenth = of_int 3602879701896397 / 2 ^ 54"
    by (simp add: double_tenth_def)
  then have b: "fadd double_tenth double_tenth = double_tenth + double_tenth"
    using exact_pow2 [of 3602879701896397 54] by (simp only: fadd_def) simp
  have "double_tenth + double_tenth + double_tenth = 10808639105689191 / 2 ^ 55"
    by (simp add: double_tenth_def)
  then have c: "fadd (double_tenth + double_tenth) double_tenth = 5404319552844596 / 2 ^ 54"
    by (simp only: fadd_def round_three_tenths)
  show ?thesis by (simp only: fsum_def foldl.simps a b c)
qed

lemma mean_of_three_tenths:
  "mean_f64 (replicate 3 (Some double_tenth)) = Some (double_tenth + 1 / 2 ^ 56)"
proof -
  have "double_tenth + 1 / 2 ^ 56 = 7205759403792795 / 2 ^ 56"
    by (simp add: double_tenth_def)
  then have "fdiv (5404319552844596 / 2 ^ 54) 3 = double_tenth + 1 / 2 ^ 56"
    by (simp only: fdiv_def round_third_of_sum)
  moreover have "replicate 3 double_tenth = [double_tenth, double_tenth, double_tenth]"
    by (simp add: numeral_3_eq_3)
  ultimately show ?thesis
    by (simp add: mean_f64_def sum_of_three_tenths)
qed

lemma squares_of_three_tenths:
  "map (\<lambda>v. fmul (fsub (double_tenth + 1 / 2 ^ 56) v) (fsub (double_tenth + 1 / 2 ^ 56) v))
     (replicate 3 double_tenth) = replicate 3 (1 / 2 ^ 112)"
proof -
  have "double_tenth + 1 / 2 ^ 56 - double_tenth = of_int 1 / 2 ^ 56" by simp
  then have dev: "fsub (double_tenth + 1 / 2 ^ 56) double_tenth = 1 / 2 ^ 56"
    using exact_pow2 [of 1 56] by (simp only: fsub_def) simp
  have "(1 / 2 ^ 56) * (1 / 2 ^ 56) = of_int 1 / (2 ^ 112 :: real)" by simp
  then have sq: "fmul (1 / 2 ^ 56) (1 / 2 ^ 56) = 1 / 2 ^ 112"
    using exact_pow2 [of 1 112] by (simp only: fmul_def) simp
  show ?thesis by (simp only: map_replicate dev sq)
qed

lemma sum_of_three_squares:
  "fsum (replicate 3 (1 / 2 ^ 112)) = 3 / 2 ^ 112"
proof -
  let ?q = "1 / 2 ^ 112 :: real"
  have "0 + ?q = of_int 1 / 2 ^ 112" by simp
  then have a: "fadd 0 ?q = ?q"
    using exact_pow2 [of 1 112] by (simp only: fadd_def) simp
  have "?q + ?q = of_int 2 / 2 ^ 112" by simp
  then have b: "fadd ?q ?q = ?q + ?q"
    using exact_pow2 [of 2 112] by (simp only: fadd_def) simp
  have "?q + ?q + ?q = of_int 3 / 2 ^ 112" by simp
  then have c: "fadd (?q + ?q) ?q = 3 / 2 ^ 112"
    using exact_pow2 [of 3 112] by (simp only: fadd_def) simp
  have "replicate 3 ?q = [?q, ?q, ?q]" by (simp add: numeral_3_eq_3)
  then show ?thesis by (simp only: fsum_def foldl.simps a b c)
qed

lemma std_of_three_tenths:
  "std_f64 (replicate 3 (Some double_tenth)) = Some (round_to_double (sqrt (3 / 2 ^ 113)))"
proof -
  have "3 / 2 ^ 112 / real (3 - 1) = of_int 3 / 2 ^ 113" by simp
  then have var: "fdiv (3 / 2 ^ 112) (real (3 - 1)) = 3 / 2 ^ 113"
    using exact_pow2 [of 3 113] by (simp only: fdiv_def) simp
  have "std_f64 (replicate 3 (Some double_tenth)) =
          (if (3::nat) \<le> 1 then None else Some (round_to_double (sqrt (3 / 2 ^ 113))))"
    by (simp only: std_f64_def mean_of_three_tenths option.case dropna_replicate
        length_replicate squares_of_three_tenths sum_of_three_squares var fsqrt_def)
  then show ?thesis by simp
qed

lemma std_of_three_tenths_close:
  "12 / 5 / 2 ^ 57 \<le> round_to_double (sqrt (3 / 2 ^ 113))"
  "round_to_double (sqrt (3 / 2 ^ 113)) \<le> 5 / 2 / 2 ^ 57"
proof -
  let ?s = "sqrt (3 / 2 ^ 113) :: real"
  have lo: "241 / 100 / 2 ^ 57 \<le> ?s"
    by (rule real_le_rsqrt) (simp add: power_divide)
  have hi: "?s \<le> 249 / 100 / 2 ^ 57"
    by (rule real_le_lsqrt) (simp_all add: power_divide)
  have pos: "0 \<le> ?s" by simp
  from round_to_double_lower [OF pos] lo show "12 / 5 / 2 ^ 57 \<le> round_to_double ?s"
    by simp
  from round_to_double_upper [OF pos] hi show "round_to_double ?s \<le> 5 / 2 / 2 ^ 57"
    by simp
qed

lemma sigmoid_cell_close:
  assumes sd: "12 / 5 / 2 ^ 57 \<le> sd" "sd \<le> 5 / 2 / 2 ^ 57"
  defines "c \<equiv> fdiv 1 (fadd 1 (fexp (- (fdiv (fsub double_tenth (double_tenth + 1 / 2 ^ 56)) sd))))"
  shows "7 / 25 < c" and "c < 33 / 100"
proof -
  have "double_tenth - (double_tenth + 1 / 2 ^ 56) = of_int (- 1) / 2 ^ 56" by simp
  then have sub: "fsub double_tenth (double_tenth + 1 / 2 ^ 56) = - (1 / 2 ^ 56)"
    using exact_pow2 [of "- 1" 56] by (simp only: fsub_def) simp
  have "(0::real) < 12 / 5 / 2 ^ 57" by simp
  with sd(1) have sdpos: "0 < sd" by linarith
  define r where "r = - (1 / 2 ^ 56) / sd"
  have r_hi: "r \<le> - (4 / 5)"
  proof -
    have "4 / 5 \<le> (1 / 2 ^ 56) / sd"
      using sd(2) sdpos by (simp add: field_simps)
    then show ?thesis by (simp add: r_def)
  qed
  have r_lo: "- (5 / 6) \<le> r"
  proof -
    have "(1 / 2 ^ 56) / sd \<le> 5 / 6"
      using sd(1) sdpos by (simp add: field_simps)
    then show ?thesis by (simp add: r_def)
  qed
  define z where "z = round_to_double r"
  have "\<bar>z - r\<bar> \<le> \<bar>r\<bar> / 2 ^ 53"
    unfolding z_def by (rule round_to_double_error)
  moreover have "\<bar>r\<bar> / 2 ^ 53 \<le> 1 / 2 ^ 53"
    using r_lo r_hi by (intro divide_right_mono) simp_all
  ultimately have "z \<le> r + 1 / 2 ^ 53" "r - 1 / 2 ^ 53 \<le> z" by linarith+
  with r_hi r_lo have z_hi: "z \<le> - (79 / 100)" and z_lo: "- (84 / 100) \<le> z" by simp_all
  define t where "t = - z"
  from z_hi z_lo have t: "79 / 100 \<le> t" "t \<le> 84 / 100" by (simp_all add: t_def)
  have t2: "(79 / 100)\<^sup>2 \<le> t\<^sup>2" "t\<^sup>2 \<le> (84 / 100)\<^sup>2"
    using t by (simp_all add: power_mono)
  have "1 + t + t\<^sup>2 / 2 \<le> exp t"
    using t(1) by (intro exp_lower_Taylor_quadratic) simp
  with t(1) t2(1) have e_lo: "21 / 10 \<le> exp t" by (simp add: power2_eq_square)
  have "exp t \<le> 1 + t + t\<^sup>2"
    using t by (intro exp_bound) simp_all
  with t(2) t2(2) have e_hi: "exp t \<le> 51 / 20" by (simp add: power2_eq_square)
  define ex where "ex = round_to_double (exp t)"
  have "exp t * (1 - 1 / 2 ^ 53) \<le> ex"
    unfolding ex_def by (rule round_to_double_lower) simp
  moreover have "ex \<le> exp t * (1 + 1 / 2 ^ 53)"
    unfolding ex_def by (rule round_to_double_upper) simp
  moreover have "(21 / 10) * (1 - 1 / 2 ^ 53) \<le> exp t * (1 - 1 / 2 ^ 53)"
    using e_lo by (intro mult_right_mono) simp_all
  moreover have "exp t * (1 + 1 / 2 ^ 53) \<le> (51 / 20) * (1 + 1 / 2 ^ 53)"
    using e_hi by (intro mult_right_mono) simp_all
  ultimately have ex: "209 / 100 \<le> ex" "ex \<le> 256 / 100" by simp_all
  define w where "w = round_to_double (1 + ex)"
  have "(1 + ex) * (1 - 1 / 2 ^ 53) \<le> w"
    unfolding w_def using ex(1) by (intro round_to_double_lower) simp
  moreover have "w \<le> (1 + ex) * (1 + 1 / 2 ^ 53)"
    unfolding w_def using ex(1) by (intro round_to_double_upper) simp
  moreover have "(309 / 100) * (1 - 1 / 2 ^ 53) \<le> (1 + ex) * (1 - 1 / 2 ^ 53)"
    using ex(1) by (intro mult_right_mono) simp_all
  moreover have "(1 + ex) * (1 + 1 / 2 ^ 53) \<le> (356 / 100) * (1 + 1 / 2 ^ 53)"
    using ex(2) by (intro mult_right_mono) simp_all
  ultimately have w: "308 / 100 \<le> w" "w \<le> 357 / 100" by simp_all
  then have inv: "100 / 357 \<le> 1 / w" "1 / w \<le> 100 / 308"
    by (simp_all add: field_simps)
  from w(1) have ipos: "0 \<le> 1 / w" by simp
  have c: "c = round_to_double (1 / w)"
    unfolding c_def fdiv_def fadd_def fexp_def sub w_def ex_def t_def z_def r_def ..
  have "(100 / 357) * (1 - 1 / 2 ^ 53) \<le> (1 / w) * (1 - 1 / 2 ^ 53)"
    using inv(1) by (intro mult_right_mono) simp_all
  also have "\<dots> \<le> c"
    unfolding c using ipos by (rule round_to_double_lower)
  finally show "7 / 25 < c" by simp
  have "c \<le> (1 / w) * (1 + 1 / 2 ^ 53)"
    unfolding c using ipos by (rule round_to_double_upper)
  also have "\<dots> \<le> (100 / 308) * (1 + 1 / 2 ^ 53)"
    using inv(2) by (intro mult_right_mono) simp_all
  finally show "c < 33 / 100" by simp
qed

text \<open>
  Claim C5. The spec has every Series of identical values normalised to all 0.5 by
  \<^verbatim>\<open>z_score\<close>, and the \<^verbatim>\<open>else\<close> branch of line 190 is there for it. On doubles the
  branch is missed: for the Series of three cells \<^verbatim>\<open>0.1\<close> the computed mean is one
  unit in the last place above the cells, so the computed standard deviation is
  greater than 0, the sigmoid branch runs, and every returned cell is the same
  number between 0.28 and 0.33.
\<close>

theorem z_score_of_equal_doubles:
  "round_to_double (1 / 10) = double_tenth \<and>
   mean_f64 (replicate 3 (Some double_tenth)) = Some (double_tenth + 1 / 2 ^ 56) \<and>
   (\<exists>sd c. std_f64 (replicate 3 (Some double_tenth)) = Some sd \<and> 0 < sd \<and>
      z_score_f64 (replicate 3 (Some double_tenth)) = replicate 3 c \<and>
      7 / 25 < c \<and> c < 33 / 100)"
proof -
  let ?sd = "round_to_double (sqrt (3 / 2 ^ 113))"
  let ?c = "fdiv 1 (fadd 1 (fexp (- (fdiv (fsub double_tenth (double_tenth + 1 / 2 ^ 56)) ?sd))))"
  note b = std_of_three_tenths_close
  have "(0::real) < 12 / 5 / 2 ^ 57" by simp
  with b(1) have pos: "0 < ?sd" by linarith
  have "z_score_f64 (replicate 3 (Some double_tenth)) = replicate 3 ?c"
    using pos by (simp add: z_score_f64_def mean_of_three_tenths std_of_three_tenths
        fillna0_def)
  with pos sigmoid_cell_close [OF b] tenth_is_double mean_of_three_tenths
    std_of_three_tenths
  show ?thesis by blast
qed

section \<open>Weights\<close>

lemma sum_list_scaled_weights:
  "sum_list (map (snd \<circ> (\<lambda>(k, v). (k, v / c))) ws) = sum_list (map snd ws) / (c::real)"
  by (induction ws) (auto simp: add_divide_distrib)

text \<open>
  An empty dict is a weight mapping whose values sum to 0, and it is not stored
  unchanged: \<^verbatim>\<open>risk_weights if risk_weights else default_weights\<close> replaces it by the
  default weights.
\<close>

theorem empty_weights_replaced_by_defaults:
  "sum_list (map snd ([] :: (string \<times> real) list)) = 0 \<and>
   risk_weights (init None (Some [])) \<noteq> []"
  by (simp add: init_def default_weights_def)

text \<open>
  Claim C6, amended. A non-empty weight mapping with a positive sum is stored with
  each weight divided by the sum, and the stored weights sum to 1; a non-empty
  mapping whose sum is not positive is stored unchanged; an empty mapping is
  replaced by the default weights. \<open>init\<close> is a total function: the construction
  raises nothing.
\<close>

theorem init_weights:
  "risk_weights (init zcd (Some ws)) =
     (if ws = [] then default_weights
      else if sum_list (map snd ws) > 0
           then map (\<lambda>(k, v). (k, v / sum_list (map snd ws))) ws
           else ws) \<and>
   (ws \<noteq> [] \<and> sum_list (map snd ws) > 0 \<longrightarrow>
      sum_list (map snd (risk_weights (init zcd (Some ws)))) = 1)"
proof -
  have d: "sum_list (map snd default_weights) = 1"
    by (simp add: default_weights_def)
  have "map (\<lambda>(k, v). (k, v / 1)) default_weights = default_weights"
    by (simp add: default_weights_def)
  with d show ?thesis
    by (simp add: init_def sum_list_scaled_weights)
qed

text \<open>The weights 2 and 6 are stored as a quarter and three quarters.\<close>

theorem init_weights_witness:
  "risk_weights (init None (Some [(''bird_density'', 2), (''population_density'', 6)])) =
     [(''bird_density'', 1 / 4), (''population_density'', 3 / 4)] \<and>
   sum_list (map snd (risk_weights (init None (Some [(''bird_density'', 2), (''population_density'', 6)])))) = 1"
  using init_weights [of None "[(''bird_density'', 2), (''population_density'', 6)]"]
  by simp

section \<open>Ranking\<close>

text \<open>The result that the scoring of the three areas leaves in the engine.\<close>

lemma scored_engine_eval:
  "zip_code_data scored_engine = Some three_area_table"
  "risk_scores scored_engine =
     Some [score_row 0 1000 0 0, score_row 1 5000 1 (3 / 10), score_row 2 2000 (1 / 4) (3 / 40)]"
  by (simp_all add: scored_engine_def score_row_def calculate_risk_scores_def init_def
      three_area_table_def calculate_population_density_def ensure_area_column_def
      requested_column_def default_weights_def normalize_risk_factor_def min_max_def
      series_min_def series_max_def dropna_def fillna0_def density_cell_def optional_factor_def
      composite_def weight_get_def Let_def upt_rec)

lemma sorted_desc_conv:
  "sorted (map (\<lambda>r. - risk_score r) rs) \<longleftrightarrow> sorted_wrt (\<lambda>a b. risk_score a \<ge> risk_score b) rs"
  by (simp add: sorted_map)

lemma sort_values_desc_sorted:
  "sorted_wrt (\<lambda>a b. risk_score a \<ge> risk_score b) (sort_values_desc rs)"
  unfolding sort_values_desc_def sorted_desc_conv [symmetric] by simp

lemma mset_sort_values_desc [simp]: "mset (sort_values_desc rs) = mset rs"
  by (simp add: sort_values_desc_def)

lemma sort_values_desc_nlargest [simp]: "sort_values_desc (nlargest n rs) = nlargest n rs"
proof -
  have "sorted (map (\<lambda>r. - risk_score r) (sort_key (\<lambda>r. - risk_score r) rs))" by simp
  then have "sorted (map (\<lambda>r. - risk_score r) (nlargest n rs))"
    unfolding nlargest_def by (simp add: sorted_wrt_take sorted_map)
  then show ?thesis
    unfolding sort_values_desc_def by (rule sort_key_id_if_sorted)
qed

lemma nlargest_top:
  "mset (nlargest n rs) \<subseteq># mset rs \<and>
   (\<forall>r \<in># mset rs - mset (nlargest n rs). \<forall>s \<in> set (nlargest n rs). risk_score r \<le> risk_score s)"
proof -
  let ?S = "sort_key (\<lambda>r. - risk_score r) rs"
  have split: "mset rs = mset (take (nat n) ?S) + mset (drop (nat n) ?S)"
    by (metis append_take_drop_id mset_append mset_sort)
  have "sorted_wrt (\<lambda>a b. risk_score a \<ge> risk_score b) ?S"
    using sort_values_desc_sorted [of rs] by (simp add: sort_values_desc_def)
  then have "sorted_wrt (\<lambda>a b. risk_score a \<ge> risk_score b) (take (nat n) ?S @ drop (nat n) ?S)"
    by (simp only: append_take_drop_id)
  then have "\<forall>s \<in> set (take (nat n) ?S). \<forall>r \<in> set (drop (nat n) ?S). risk_score r \<le> risk_score s"
    unfolding sorted_wrt_append by blast
  with split show ?thesis
    by (auto simp: nlargest_def)
qed

text \<open>
  With \<^verbatim>\<open>top_n=0\<close> the query does not return the zero highest-scoring records and
  does not ignore the threshold: on the engine with the scores 0, 0.3 and 0.075 it
  returns the second and the third area at the threshold 0.05 and the second alone
  at 0.2.
\<close>

theorem top_n_zero_returns_threshold_rows:
  "map_sum id (map row_index) (fst (get_high_risk_zips scored_engine (1 / 20) (Some 0)))
     = Inr [1, 2] \<and>
   map_sum id (map row_index) (fst (get_high_risk_zips scored_engine (1 / 5) (Some 0)))
     = Inr [1]"
  by (simp add: get_high_risk_zips_def scored_engine_eval sort_values_desc_def score_row_def)

text \<open>
  Claim C7, amended. On a computed result table and for every \<^verbatim>\<open>top_n\<close> \<open>k\<close> other than
  0, the query returns \<open>min k n\<close> of the \<open>n\<close> records (none for a negative \<open>k\<close>), in
  descending order of score, every record left out scoring no more than any record
  returned, and the threshold has no influence. Without \<^verbatim>\<open>top_n\<close> it returns exactly
  the records whose score is at least the threshold, in descending order of score.
\<close>

theorem get_high_risk_zips_ranking:
  assumes "risk_scores e = Some rs"
  shows "(k \<noteq> 0 \<longrightarrow>
           (\<exists>out. get_high_risk_zips e threshold (Some k) = (Inr out, e)
              \<and> length out = min (nat k) (length rs)
              \<and> sorted_wrt (\<lambda>a b. risk_score a \<ge> risk_score b) out
              \<and> mset out \<subseteq># mset rs
              \<and> (\<forall>r \<in># mset rs - mset out. \<forall>s \<in> set out. risk_score r \<le> risk_score s)
              \<and> get_high_risk_zips e threshold' (Some k) = (Inr out, e)))
       \<and> (\<exists>out. get_high_risk_zips e threshold None = (Inr out, e)
              \<and> mset out = mset (filter (\<lambda>r. risk_score r \<ge> threshold) rs)
              \<and> sorted_wrt (\<lambda>a b. risk_score a \<ge> risk_score b) out)"
proof (intro conjI impI)
  assume k: "k \<noteq> 0"
  have call: "get_high_risk_zips e t (Some k) = (Inr (nlargest k rs), e)" for t
    using assms k by (simp add: get_high_risk_zips_def)
  have len: "length (nlargest k rs) = min (nat k) (length rs)"
    by (simp add: nlargest_def)
  have srt: "sorted_wrt (\<lambda>a b. risk_score a \<ge> risk_score b) (nlargest k rs)"
    using sort_values_desc_sorted [of "nlargest k rs"] by simp
  from call len srt nlargest_top [of k rs]
  show "\<exists>out. get_high_risk_zips e threshold (Some k) = (Inr out, e)
              \<and> length out = min (nat k) (length rs)
              \<and> sorted_wrt (\<lambda>a b. risk_score a \<ge> risk_score b) out
              \<and> mset out \<subseteq># mset rs
              \<and> (\<forall>r \<in># mset rs - mset out. \<forall>s \<in> set out. risk_score r \<le> risk_score s)
              \<and> get_high_risk_zips e threshold' (Some k) = (Inr out, e)"
    by blast
next
  have "get_high_risk_zips e threshold None
          = (Inr (sort_values_desc (filter (\<lambda>r. risk_score r \<ge> threshold) rs)), e)"
    using assms by (simp add: get_high_risk_zips_def)
  then show "\<exists>out. get_high_risk_zips e threshold None = (Inr out, e)
              \<and> mset out = mset (filter (\<lambda>r. risk_score r \<ge> threshold) rs)
              \<and> sorted_wrt (\<lambda>a b. risk_score a \<ge> risk_score b) out"
    using sort_values_desc_sorted by simp
qed

text \<open>The two highest of the scores 0, 0.3 and 0.075, whatever the threshold.\<close>

theorem get_high_risk_zips_ranking_witness:
  "\<exists>out. get_high_risk_zips scored_engine (7 / 10) (Some 2) = (Inr out, scored_engine)
      \<and> map row_index out = [1, 2]
      \<and> length out = min (nat 2) 3
      \<and> sorted_wrt (\<lambda>a b. risk_score a \<ge> risk_score b) out
      \<and> get_high_risk_zips scored_engine 0 (Some 2) = (Inr out, scored_engine)"
proof -
  have val: "map_sum id (map row_index) (fst (get_high_risk_zips scored_engine (7 / 10) (Some 2)))
               = Inr [1, 2]"
    by (simp add: get_high_risk_zips_def scored_engine_eval nlargest_def sort_values_desc_def
        score_row_def)
  from get_high_risk_zips_ranking [OF scored_engine_eval(2), of 2 "7 / 10" 0] val
  show ?thesis by auto
qed

text \<open>
  Claim C10. On a computed result table, the query with \<^verbatim>\<open>top_n=0\<close> is the query
  without \<^verbatim>\<open>top_n\<close>: it returns the records whose score is at least the threshold,
  in descending order of score.
\<close>

theorem top_n_zero_is_no_top_n:
  assumes "risk_scores e = Some rs"
  shows "get_high_risk_zips e t (Some 0) = get_high_risk_zips e t None \<and>
         (\<exists>out. get_high_risk_zips e t (Some 0) = (Inr out, e)
            \<and> mset out = mset (filter (\<lambda>r. risk_score r \<ge> t) rs)
            \<and> sorted_wrt (\<lambda>a b. risk_score a \<ge> risk_score b) out)"
proof -
  have "get_high_risk_zips e t (Some 0)
          = (Inr (sort_values_desc (filter (\<lambda>r. risk_score r \<ge> t) rs)), e)"
    using assms by (simp add: get_high_risk_zips_def)
  moreover have "get_high_risk_zips e t None
          = (Inr (sort_values_desc (filter (\<lambda>r. risk_score r \<ge> t) rs)), e)"
    using assms by (simp add: get_high_risk_zips_def)
  ultimately show ?thesis
    using sort_values_desc_sorted by simp
qed

text \<open>At the threshold 0.05 the areas with the scores 0.3 and 0.075 are returned.\<close>

theorem top_n_zero_is_no_top_n_witness:
  "get_high_risk_zips scored_engine (1 / 20) (Some 0) = get_high_risk_zips scored_engine (1 / 20) None \<and>
   (\<exists>out. get_high_risk_zips scored_engine (1 / 20) (Some 0) = (Inr out, scored_engine)
      \<and> mset out = mset [score_row 1 5000 1 (3 / 10), score_row 2 2000 (1 / 4) (3 / 40)]
      \<and> sorted_wrt (\<lambda>a b. risk_score a \<ge> risk_score b) out)"
proof -
  have flt: "filter (\<lambda>r. risk_score r \<ge> 1 / 20)
               [score_row 0 1000 0 0, score_row 1 5000 1 (3 / 10), score_row 2 2000 (1 / 4) (3 / 40)]
          = [score_row 1 5000 1 (3 / 10), score_row 2 2000 (1 / 4) (3 / 40)]"
    by (simp add: score_row_def)
  from top_n_zero_is_no_top_n [OF scored_engine_eval(2), of "1 / 20"] show ?thesis
    unfolding flt .
qed

section \<open>The engine's state across calls\<close>

lemma optional_factor_eq:
  "optional_factor t col =
     Inr (map_option fillna0 (requested_column t col),
          case requested_column t col of
            Some raw \<Rightarrow> min_max (map Some (fillna0 raw))
          | None \<Rightarrow> replicate (nrows t) 0)"
  by (simp add: optional_factor_def split: option.splits)

lemma population_density_table:
  assumes "zip_code_data e = Some t"
  shows "zip_code_data (snd (calculate_population_density e p a)) =
           Some (case ensure_area_column t a of Inl err \<Rightarrow> t | Inr t1 \<Rightarrow> t1)"
    and "risk_scores (snd (calculate_population_density e p a)) = risk_scores e"
    and "risk_map_gdf (snd (calculate_population_density e p a)) = risk_map_gdf e"
    and "risk_weights (snd (calculate_population_density e p a)) = risk_weights e"
  using assms
  by (simp_all add: calculate_population_density_def Let_def split: sum.splits option.splits)

lemma population_density_no_table:
  assumes "zip_code_data e = None"
  shows "calculate_population_density e p a = (Inl NoZipCodeData, e)"
  using assms by (simp add: calculate_population_density_def)

lemma risk_scores_table:
  assumes "zip_code_data e = Some t"
  shows "zip_code_data (snd (calculate_risk_scores e p a b w h v)) =
           Some (case ensure_area_column t a of Inl err \<Rightarrow> t | Inr t1 \<Rightarrow> t1)"
proof -
  obtain r e1 where cpd: "calculate_population_density e p a = (r, e1)"
    by (cases "calculate_population_density e p a")
  with population_density_table(1) [OF assms, of p a]
  have e1: "zip_code_data e1 = Some (case ensure_area_column t a of Inl err \<Rightarrow> t | Inr t1 \<Rightarrow> t1)"
    by simp
  show ?thesis
    using assms cpd e1
    by (cases r) (simp_all add: calculate_risk_scores_def optional_factor_eq Let_def)
qed

lemma risk_scores_failure:
  assumes "fst (calculate_risk_scores e p a b w h v) = Inl err"
  shows "risk_scores (snd (calculate_risk_scores e p a b w h v)) = risk_scores e"
    and "risk_map_gdf (snd (calculate_risk_scores e p a b w h v)) = risk_map_gdf e"
proof -
  have "risk_scores (snd (calculate_risk_scores e p a b w h v)) = risk_scores e
      \<and> risk_map_gdf (snd (calculate_risk_scores e p a b w h v)) = risk_map_gdf e"
  proof (cases "zip_code_data e")
    case None
    then show ?thesis by (simp add: calculate_risk_scores_def)
  next
    case (Some t)
    obtain r e1 where cpd: "calculate_population_density e p a = (r, e1)"
      by (cases "calculate_population_density e p a")
    with population_density_table [OF Some, of p a]
    have e1: "risk_scores e1 = risk_scores e" "risk_map_gdf e1 = risk_map_gdf e"
      "\<exists>t1. zip_code_data e1 = Some t1"
      by simp_all
    then obtain t1 where t1: "zip_code_data e1 = Some t1" by blast
    show ?thesis
    proof (cases r)
      case (Inl err')
      with Some cpd e1 show ?thesis by (simp add: calculate_risk_scores_def)
    next
      case (Inr d)
      with Some cpd t1 assms have False
        by (simp add: calculate_risk_scores_def optional_factor_eq Let_def)
      then show ?thesis ..
    qed
  qed
  then show "risk_scores (snd (calculate_risk_scores e p a b w h v)) = risk_scores e"
    and "risk_map_gdf (snd (calculate_risk_scores e p a b w h v)) = risk_map_gdf e"
    by simp_all
qed

lemma get_high_risk_zips_reads_scores:
  "risk_scores e' = risk_scores e \<Longrightarrow>
     fst (get_high_risk_zips e' th tn) = fst (get_high_risk_zips e th tn)"
  by (simp add: get_high_risk_zips_def Let_def split: option.splits)

lemma get_high_risk_zips_engine: "snd (get_high_risk_zips e th tn) = e"
  by (simp add: get_high_risk_zips_def Let_def split: option.splits)

text \<open>
  A table that has geometry and no area column is changed by the density
  computation: the derived areas, 2 and 4 square kilometres, are stored in it as
  the column \<^verbatim>\<open>area_km2\<close>.
\<close>

theorem derived_area_column_is_stored:
  "columns geometry_table ''area_km2'' = None \<and>
   fst (calculate_population_density (init (Some geometry_table) None) ''population'' ''area_km2'')
     = Inr [500, 1250] \<and>
   map_option (\<lambda>t. columns t ''area_km2'')
     (zip_code_data (snd (calculate_population_density (init (Some geometry_table) None)
                            ''population'' ''area_km2'')))
     = Some (Some [Some 2, Some 4])"
  by (simp add: calculate_population_density_def ensure_area_column_def init_def
      geometry_table_def density_cell_def Let_def)

text \<open>
  Claim C8, amended. After \<^verbatim>\<open>calculate_population_density\<close> and after
  \<^verbatim>\<open>calculate_risk_scores\<close> the engine holds the same table: its own table when that
  has the area column or has no geometry, and otherwise its own table with the area
  derived from the geometry added under the name of the area column. The index,
  the geometry and every other column are as they were; no column is removed or
  overwritten.
\<close>

theorem area_table_after_scoring:
  assumes "zip_code_data e = Some t"
  shows "\<exists>t'. zip_code_data (snd (calculate_population_density e population_col area_col)) = Some t'
           \<and> zip_code_data (snd (calculate_risk_scores e population_col area_col bird_density_col
                 water_proximity_col healthcare_col vulnerability_col)) = Some t'
           \<and> t' = (case (columns t area_col, geometry t) of
                     (None, Some g) \<Rightarrow>
                        t\<lparr>columns := (columns t)
                             (area_col \<mapsto> map (map_option (\<lambda>a. a / 1000000)) g)\<rparr>
                   | _ \<Rightarrow> t)
           \<and> nrows t' = nrows t \<and> geometry t' = geometry t
           \<and> (\<forall>c. c \<noteq> area_col \<longrightarrow> columns t' c = columns t c)
           \<and> (\<forall>col. columns t area_col = Some col \<longrightarrow> t' = t)"
proof -
  let ?t' = "case ensure_area_column t area_col of Inl err \<Rightarrow> t | Inr t1 \<Rightarrow> t1"
  have "?t' = (case (columns t area_col, geometry t) of
                     (None, Some g) \<Rightarrow>
                        t\<lparr>columns := (columns t)
                             (area_col \<mapsto> map (map_option (\<lambda>a. a / 1000000)) g)\<rparr>
                   | _ \<Rightarrow> t)"
    by (simp add: ensure_area_column_def split: option.splits)
  moreover have "nrows ?t' = nrows t" "geometry ?t' = geometry t"
    by (simp_all add: ensure_area_column_def split: option.splits)
  moreover have "\<forall>c. c \<noteq> area_col \<longrightarrow> columns ?t' c = columns t c"
    by (simp add: ensure_area_column_def split: option.splits)
  moreover have "\<forall>col. columns t area_col = Some col \<longrightarrow> ?t' = t"
    by (simp add: ensure_area_column_def)
  ultimately show ?thesis
    using population_density_table(1) [OF assms, of population_col area_col]
      risk_scores_table [OF assms, of population_col area_col bird_density_col
        water_proximity_col healthcare_col vulnerability_col]
    by blast
qed

text \<open>A table with its area column is left as it is.\<close>

theorem area_table_after_scoring_witness:
  "\<exists>t'. zip_code_data (snd (calculate_population_density (init (Some three_area_table) None)
              ''population'' ''area_km2'')) = Some t'
         \<and> zip_code_data (snd (calculate_risk_scores (init (Some three_area_table) None)
              ''population'' ''area_km2'' None None None None)) = Some t'
         \<and> t' = three_area_table"
proof -
  have z: "zip_code_data (init (Some three_area_table) None) = Some three_area_table"
    by (simp add: init_def Let_def)
  have c: "columns three_area_table ''area_km2'' = Some [Some 1, Some 1, Some 1]"
    by (simp add: three_area_table_def)
  from area_table_after_scoring [OF z, of "''population''" "''area_km2''" None None None None] c
  show ?thesis by auto
qed

text \<open>
  Claim C9. A call of \<^verbatim>\<open>calculate_risk_scores\<close> that raises leaves the cached result
  and the combined table as they were, and a ranking query answers afterwards as it
  did before; the same holds for every call of \<^verbatim>\<open>calculate_population_density\<close>;
  and \<^verbatim>\<open>get_high_risk_zips\<close>, raising or not, leaves the whole engine unchanged.
\<close>

theorem failing_call_keeps_cached_result:
  "(fst (calculate_risk_scores e population_col area_col bird_density_col water_proximity_col
           healthcare_col vulnerability_col) = Inl err \<longrightarrow>
      (let e' = snd (calculate_risk_scores e population_col area_col bird_density_col
                       water_proximity_col healthcare_col vulnerability_col)
       in risk_scores e' = risk_scores e \<and> risk_map_gdf e' = risk_map_gdf e
          \<and> fst (get_high_risk_zips e' threshold top_n) = fst (get_high_risk_zips e threshold top_n)))
   \<and> (let e' = snd (calculate_population_density e population_col area_col)
      in risk_scores e' = risk_scores e \<and> risk_map_gdf e' = risk_map_gdf e
         \<and> fst (get_high_risk_zips e' threshold top_n) = fst (get_high_risk_zips e threshold top_n))
   \<and> snd (get_high_risk_zips e threshold top_n) = e"
proof -
  have pd: "risk_scores (snd (calculate_population_density e population_col area_col)) = risk_scores e
      \<and> risk_map_gdf (snd (calculate_population_density e population_col area_col)) = risk_map_gdf e"
  proof (cases "zip_code_data e")
    case None
    then show ?thesis by (simp add: population_density_no_table)
  next
    case (Some t)
    then show ?thesis by (simp add: population_density_table)
  qed
  have q1: "fst (get_high_risk_zips (snd (calculate_population_density e population_col area_col))
                 threshold top_n) = fst (get_high_risk_zips e threshold top_n)"
    using pd by (intro get_high_risk_zips_reads_scores) simp
  have fail: "risk_scores e' = risk_scores e \<and> risk_map_gdf e' = risk_map_gdf e
          \<and> fst (get_high_risk_zips e' threshold top_n) = fst (get_high_risk_zips e threshold top_n)"
    if "fst (calculate_risk_scores e population_col area_col bird_density_col water_proximity_col
           healthcare_col vulnerability_col) = Inl err"
      and "e' = snd (calculate_risk_scores e population_col area_col bird_density_col
                       water_proximity_col healthcare_col vulnerability_col)" for e'
  proof -
    from risk_scores_failure [OF that(1)] that(2)
    have k: "risk_scores e' = risk_scores e" "risk_map_gdf e' = risk_map_gdf e"
      by simp_all
    from k(1) have "fst (get_high_risk_zips e' threshold top_n) = fst (get_high_risk_zips e threshold top_n)"
      by (rule get_high_risk_zips_reads_scores)
    with k show ?thesis by simp
  qed
  show ?thesis
    unfolding Let_def
    using pd q1 fail get_high_risk_zips_engine [of e threshold top_n] by blast
qed

text \<open>Scoring with the name of an area column that the table does not have raises
  and keeps the three cached records; a query on a fresh engine raises and changes
  nothing.\<close>

theorem failing_call_keeps_cached_result_witness:
  "fst (calculate_risk_scores scored_engine ''population'' ''area'' None None None None)
     = Inl (AreaColumnNotFound ''area'')
   \<and> risk_scores (snd (calculate_risk_scores scored_engine ''population'' ''area'' None None None None))
       = Some [score_row 0 1000 0 0, score_row 1 5000 1 (3 / 10), score_row 2 2000 (1 / 4) (3 / 40)]
   \<and> fst (get_high_risk_zips
            (snd (calculate_risk_scores scored_engine ''population'' ''area'' None None None None))
            (7 / 10) None)
       = fst (get_high_risk_zips scored_engine (7 / 10) None)
   \<and> fst (get_high_risk_zips (init (Some three_area_table) None) (7 / 10) None)
       = Inl RiskScoresNotCalculated
   \<and> snd (get_high_risk_zips (init (Some three_area_table) None) (7 / 10) None)
       = init (Some three_area_table) None"
proof -
  have f: "fst (calculate_risk_scores scored_engine ''population'' ''area'' None None None None)
     = Inl (AreaColumnNotFound ''area'')"
    by (simp add: calculate_risk_scores_def calculate_population_density_def
        ensure_area_column_def scored_engine_eval three_area_table_def)
  have g: "fst (get_high_risk_zips (init (Some three_area_table) None) (7 / 10) None)
       = Inl RiskScoresNotCalculated"
    by (simp add: get_high_risk_zips_def init_def Let_def)
  note s = scored_engine_eval(2)
  note first = failing_call_keeps_cached_result
         [of scored_engine "''population''" "''area''" None None None None
             "AreaColumnNotFound ''area''" "7 / 10" None, unfolded Let_def]
  note second = failing_call_keeps_cached_result
         [of "init (Some three_area_table) None" "''population''" "''area''" None None None None
             "AreaColumnNotFound ''area''" "7 / 10" None, unfolded Let_def]
  note kept = first [THEN conjunct1, THEN mp, OF f]
  note query = second [THEN conjunct2, THEN conjunct2]
  show ?thesis
    using f g kept [THEN conjunct1] kept [THEN conjunct2, THEN conjunct2] query
    unfolding s by (intro conjI)
qed

section \<open>The score of one area as a function of one raw value\<close>

lemma optional_factor_norm:
  "optional_factor t col = Inr (map_option fillna0 (requested_column t col), factor_norm t col)"
  by (simp add: optional_factor_eq factor_norm_def)

lemma wf_table_column: "wf_table t \<Longrightarrow> columns t c = Some col \<Longrightarrow> length col = nrows t"
  by (simp add: wf_table_def)

lemma length_factor_norm: "wf_table t \<Longrightarrow> length (factor_norm t col) = nrows t"
  by (auto simp: factor_norm_def requested_column_def wf_table_column split: option.splits if_splits)

lemma wf_ensure_area_column:
  assumes "wf_table t" "ensure_area_column t a = Inr t1"
  shows "wf_table t1" and "nrows t1 = nrows t"
  using assms
  by (auto simp: ensure_area_column_def wf_table_def split: if_splits option.splits)

lemma risk_rows:
  assumes "zip_code_data e = Some t" "ensure_area_column t a = Inr t1"
    and "columns t1 p = Some pop" "columns t1 a = Some area"
  shows "\<exists>rs. fst (calculate_risk_scores e p a b w h v) = Inr rs \<and> length rs = nrows t1 \<and>
           (\<forall>i < nrows t1. risk_score (rs ! i) =
              composite (risk_weights e)
                (min_max (map Some (map2 density_cell pop area)) ! i)
                (factor_norm t1 b ! i) (factor_norm t1 w ! i)
                (healthcare_contribution t1 h ! i) (factor_norm t1 v ! i))"
proof -
  have cpd: "calculate_population_density e p a
               = (Inr (map2 density_cell pop area), e\<lparr>zip_code_data := Some t1\<rparr>)"
    using assms by (simp add: calculate_population_density_def)
  show ?thesis
    using assms(1)
    by (simp add: calculate_risk_scores_def cpd optional_factor_norm Let_def
        healthcare_contribution_def del: upt_Suc split: option.splits)
qed

lemma weight_get_nonneg:
  assumes "\<forall>(k, w) \<in> set ws. 0 \<le> w"
  shows "0 \<le> weight_get ws k"
proof (cases "map_of ws k")
  case None
  then show ?thesis by (simp add: weight_get_def)
next
  case (Some w)
  then have "(k, w) \<in> set ws" by (rule map_of_SomeD)
  with assms Some show ?thesis by (auto simp: weight_get_def)
qed

lemma composite_mono:
  assumes "\<forall>(k, w) \<in> set ws. 0 \<le> w"
    and "pd \<le> pd'" "bd \<le> bd'" "wp \<le> wp'" "hc \<le> hc'" "vi \<le> vi'"
  shows "composite ws pd bd wp hc vi \<le> composite ws pd' bd' wp' hc' vi'"
  unfolding composite_def
  by (intro add_mono mult_right_mono weight_get_nonneg assms)

lemma columns_set_cell:
  assumes "columns t c = Some col"
  shows "columns (set_cell t c i x) = (columns t)(c \<mapsto> col[i := Some x])"
    and "nrows (set_cell t c i x) = nrows t"
    and "geometry (set_cell t c i x) = geometry t"
  using assms by (simp_all add: set_cell_def)

lemma nrows_set_cell [simp]: "nrows (set_cell t c i x) = nrows t"
  by (simp add: set_cell_def split: option.splits)

lemma geometry_set_cell [simp]: "geometry (set_cell t c i x) = geometry t"
  by (simp add: set_cell_def split: option.splits)

lemma wf_set_cell: "wf_table t \<Longrightarrow> wf_table (set_cell t c i x)"
  by (auto simp: set_cell_def wf_table_def split: option.splits if_splits)

lemma ensure_area_column_set_cell:
  assumes "ensure_area_column t a = Inr t1" "c \<noteq> a" "columns t c = Some col"
  shows "ensure_area_column (set_cell t c i x) a = Inr (set_cell t1 c i x)"
    and "columns t1 c = Some col"
    and "columns t1 a = columns (set_cell t1 c i x) a"
  using assms
  by (auto simp: ensure_area_column_def set_cell_def fun_upd_twist
      split: if_splits option.splits)

lemma fillna0_update: "fillna0 (col[i := Some x]) = (fillna0 col)[i := x]"
  by (simp add: fillna0_def map_update)

lemma fillna0_nth: "i < length col \<Longrightarrow> col ! i = Some x \<Longrightarrow> fillna0 col ! i = x"
  by (simp add: fillna0_def)

lemma requested_column_set_cell:
  assumes "columns t c = Some col"
  shows "requested_column (set_cell t c i x) f =
           (if f = Some c \<and> c \<noteq> [] then Some (col[i := Some x]) else requested_column t f)"
  using assms
  by (auto simp: requested_column_def columns_set_cell split: option.splits)

lemma requested_column_set_cell_other:
  "\<not> (f = Some c \<and> c \<noteq> []) \<Longrightarrow>
     requested_column (set_cell t c i x) f = requested_column t f"
  by (auto simp: requested_column_def set_cell_def split: option.splits)

lemma requested_column_hit:
  "columns t c = Some col \<Longrightarrow> c \<noteq> [] \<Longrightarrow> requested_column t (Some c) = Some col"
  by (simp add: requested_column_def)

lemma factor_norm_other:
  assumes "columns t c = Some col" "f \<noteq> Some c"
  shows "factor_norm (set_cell t c i x) f = factor_norm t f"
  using assms
  by (simp add: factor_norm_def requested_column_set_cell [OF assms(1)] split: option.splits)

lemma factor_norm_mono:
  assumes wf: "wf_table t" and i: "i < nrows t"
    and col: "columns t c = Some col" "col ! i = Some x" "x \<le> x'"
  shows "factor_norm t f ! i \<le> factor_norm (set_cell t c i x') f ! i"
proof (cases "f = Some c \<and> c \<noteq> []")
  case True
  from wf col(1) i have len: "i < length col" by (simp add: wf_table_column)
  then have "fillna0 col ! i = x" using col(2) by (rule fillna0_nth)
  with col(3) len
  have "min_max (map Some (fillna0 col)) ! i \<le> min_max (map Some ((fillna0 col)[i := x'])) ! i"
    by (intro min_max_mono) simp_all
  with True show ?thesis
    by (simp add: factor_norm_def requested_column_set_cell [OF col(1)]
        requested_column_hit [OF col(1)] fillna0_update)
next
  case False
  then have "factor_norm (set_cell t c i x') f = factor_norm t f"
    by (simp add: factor_norm_def requested_column_set_cell_other cong: option.case_cong)
  then show ?thesis by simp
qed

lemma healthcare_contribution_other:
  assumes "columns t c = Some col" "h \<noteq> Some c"
  shows "healthcare_contribution (set_cell t c i x) h = healthcare_contribution t h"
  using assms(2)
  by (simp add: healthcare_contribution_def factor_norm_other [OF assms]
      requested_column_set_cell [OF assms(1)] split: option.splits)

lemma healthcare_contribution_antimono:
  assumes wf: "wf_table t" and i: "i < nrows t"
    and col: "columns t c = Some col" "col ! i = Some x" "x \<le> x'"
  shows "healthcare_contribution (set_cell t c i x') h ! i \<le> healthcare_contribution t h ! i"
proof (cases "h = Some c \<and> c \<noteq> []")
  case True
  have wf': "wf_table (set_cell t c i x')" using wf by (rule wf_set_cell)
  have l: "i < length (factor_norm t h)" "i < length (factor_norm (set_cell t c i x') h)"
    using i wf wf' col(1) by (simp_all add: length_factor_norm columns_set_cell)
  from factor_norm_mono [OF wf i col, of h] l True show ?thesis
    by (simp add: healthcare_contribution_def requested_column_set_cell [OF col(1)]
        requested_column_hit [OF col(1)])
next
  case False
  then have "healthcare_contribution (set_cell t c i x') h = healthcare_contribution t h"
    by (simp add: healthcare_contribution_def factor_norm_def requested_column_set_cell_other
        cong: option.case_cong)
  then show ?thesis by simp
qed

lemma density_cell_mono:
  assumes "x \<le> x'" and "case a of Some y \<Rightarrow> 0 \<le> y | None \<Rightarrow> True"
  shows "density_cell (Some x) a \<le> density_cell (Some x') a"
  using assms by (auto simp: density_cell_def divide_right_mono split: option.splits)

lemma map2_update_left:
  "map2 f (xs[i := x]) ys = (map2 f xs ys)[i := f x (ys ! i)]"
proof -
  have "zip (xs[i := x]) ys = zip (xs[i := x]) (ys[i := ys ! i])" by simp
  also have "\<dots> = (zip xs ys)[i := (x, ys ! i)]" by (rule zip_update)
  finally show ?thesis by (simp add: map_update)
qed

lemma density_mono:
  assumes i: "i < length pop" "i < length area"
    and cell: "pop ! i = Some x" "x \<le> x'"
    and area: "case area ! i of Some y \<Rightarrow> 0 \<le> y | None \<Rightarrow> True"
  shows "min_max (map Some (map2 density_cell pop area)) ! i
           \<le> min_max (map Some (map2 density_cell (pop[i := Some x']) area)) ! i"
proof -
  let ?d = "map2 density_cell pop area"
  have "?d ! i = density_cell (Some x) (area ! i)" using i cell(1) by simp
  with density_cell_mono [OF cell(2) area] have "?d ! i \<le> density_cell (Some x') (area ! i)"
    by simp
  moreover have "i < length ?d" using i by simp
  ultimately have "min_max (map Some ?d) ! i
      \<le> min_max (map Some (?d[i := density_cell (Some x') (area ! i)])) ! i"
    by (intro min_max_mono)
  then show ?thesis by (simp only: map2_update_left)
qed

lemma ensure_area_column_available:
  assumes "columns t p \<noteq> None" "columns t a \<noteq> None \<or> geometry t \<noteq> None"
  shows "\<exists>t1 pop area. ensure_area_column t a = Inr t1 \<and> columns t1 p = Some pop
           \<and> columns t1 a = Some area"
  using assms by (auto simp: ensure_area_column_def)

lemma area_not_negative_ensured:
  assumes "area_not_negative t a i" "ensure_area_column t a = Inr t1"
    and "columns t1 a = Some area" "wf_table t" "i < nrows t"
  shows "case area ! i of Some y \<Rightarrow> 0 \<le> y | None \<Rightarrow> True"
proof (cases "columns t a")
  case (Some area0)
  with assms(2,3) have "area = area0" by (simp add: ensure_area_column_def)
  with assms(1) Some show ?thesis by (simp add: area_not_negative_def)
next
  case None
  with assms(2) obtain g where g: "geometry t = Some g"
    and t1: "t1 = t\<lparr>columns := (columns t)(a \<mapsto> map (map_option (\<lambda>a. a / 1000000)) g)\<rparr>"
    by (auto simp: ensure_area_column_def split: option.splits)
  from assms(4,5) g have len: "i < length g" by (simp add: wf_table_def)
  from t1 assms(3) have "area = map (map_option (\<lambda>a. a / 1000000)) g" by simp
  with len have "area ! i = map_option (\<lambda>a. a / 1000000) (g ! i)" by simp
  moreover from assms(1) None g have "case g ! i of Some y \<Rightarrow> 0 \<le> y | None \<Rightarrow> True"
    by (simp add: area_not_negative_def)
  ultimately show ?thesis by (cases "g ! i") simp_all
qed

lemma scores_of_raised_cell:
  assumes tab: "zip_code_data e = Some t" and wf: "wf_table t" and i: "i < nrows t"
    and cell: "columns t c = Some col" and ca: "c \<noteq> a"
    and avail: "columns t p \<noteq> None" "columns t a \<noteq> None \<or> geometry t \<noteq> None"
  shows "\<exists>t1 pop area rs rs'.
           ensure_area_column t a = Inr t1 \<and> wf_table t1 \<and> nrows t1 = nrows t
         \<and> columns t1 c = Some col \<and> columns t1 p = Some pop \<and> columns t1 a = Some area
         \<and> fst (calculate_risk_scores e p a b w h v) = Inr rs
         \<and> fst (calculate_risk_scores (e\<lparr>zip_code_data := Some (set_cell t c i x')\<rparr>) p a b w h v)
             = Inr rs'
         \<and> risk_score (rs ! i) =
              composite (risk_weights e)
                (min_max (map Some (map2 density_cell pop area)) ! i)
                (factor_norm t1 b ! i) (factor_norm t1 w ! i)
                (healthcare_contribution t1 h ! i) (factor_norm t1 v ! i)
         \<and> risk_score (rs' ! i) =
              composite (risk_weights e)
                (min_max (map Some (map2 density_cell
                   (if p = c then pop[i := Some x'] else pop) area)) ! i)
                (factor_norm (set_cell t1 c i x') b ! i) (factor_norm (set_cell t1 c i x') w ! i)
                (healthcare_contribution (set_cell t1 c i x') h ! i)
                (factor_norm (set_cell t1 c i x') v ! i)"
proof -
  from ensure_area_column_available [OF avail]
  obtain t1 pop area where t1: "ensure_area_column t a = Inr t1"
    and pop: "columns t1 p = Some pop" and area: "columns t1 a = Some area"
    by blast
  note wf1 = wf_ensure_area_column [OF wf t1]
  note moved = ensure_area_column_set_cell [OF t1 ca cell]
  let ?t1' = "set_cell t1 c i x'"
  let ?e' = "e\<lparr>zip_code_data := Some (set_cell t c i x')\<rparr>"
  have pop': "columns ?t1' p = Some (if p = c then pop[i := Some x'] else pop)"
    using pop moved(2) by (auto simp: columns_set_cell [OF moved(2)])
  have area': "columns ?t1' a = Some area"
    using area moved(3) by simp
  have tab': "zip_code_data ?e' = Some (set_cell t c i x')" by simp
  from risk_rows [OF tab t1 pop area, of b w h v] i wf1(2)
  obtain rs where rs: "fst (calculate_risk_scores e p a b w h v) = Inr rs"
    and rsi: "risk_score (rs ! i) =
              composite (risk_weights e)
                (min_max (map Some (map2 density_cell pop area)) ! i)
                (factor_norm t1 b ! i) (factor_norm t1 w ! i)
                (healthcare_contribution t1 h ! i) (factor_norm t1 v ! i)"
    by auto
  from risk_rows [OF tab' moved(1) pop' area', of b w h v] i wf1(2) nrows_set_cell [of t1 c i x']
  obtain rs' where rs': "fst (calculate_risk_scores ?e' p a b w h v) = Inr rs'"
    and rsi': "risk_score (rs' ! i) =
              composite (risk_weights e)
                (min_max (map Some (map2 density_cell
                   (if p = c then pop[i := Some x'] else pop) area)) ! i)
                (factor_norm ?t1' b ! i) (factor_norm ?t1' w ! i)
                (healthcare_contribution ?t1' h ! i) (factor_norm ?t1' v ! i)"
    by auto
  from t1 wf1 moved(2) pop area rs rs' rsi rsi' show ?thesis by blast
qed

lemma wf_full_table: "wf_table full_table"
  by (auto simp: wf_table_def full_table_def split: if_splits)

lemma default_engine_weights:
  "\<forall>(k, w) \<in> set (risk_weights (init zcd None)). 0 \<le> w"
  by (simp add: init_def default_weights_def)

text \<open>
  Claim C2. In a loaded table whose population and area can be read, let the
  healthcare column be a column of its own (not also the population, area, bird,
  water or vulnerability column) and let the stored weights be non-negative. Raising
  the healthcare value of one area, every other cell as it is, gives a scoring that
  succeeds as the first one does, and the composite score of that area does not
  increase.
\<close>

theorem raising_healthcare_never_raises_score:
  assumes tab: "zip_code_data e = Some t" and wf: "wf_table t" and i: "i < nrows t"
    and cell: "columns t c = Some col" "col ! i = Some x" "x \<le> x'"
    and healthcare: "healthcare_col = Some c"
    and others: "c \<noteq> population_col" "c \<noteq> area_col" "bird_density_col \<noteq> Some c"
                "water_proximity_col \<noteq> Some c" "vulnerability_col \<noteq> Some c"
    and weights: "\<forall>(k, w) \<in> set (risk_weights e). 0 \<le> w"
    and avail: "columns t population_col \<noteq> None"
               "columns t area_col \<noteq> None \<or> geometry t \<noteq> None"
  shows "\<exists>rs rs'.
           fst (calculate_risk_scores e population_col area_col bird_density_col
                  water_proximity_col healthcare_col vulnerability_col) = Inr rs
         \<and> fst (calculate_risk_scores (e\<lparr>zip_code_data := Some (set_cell t c i x')\<rparr>)
                  population_col area_col bird_density_col water_proximity_col healthcare_col
                  vulnerability_col) = Inr rs'
         \<and> risk_score (rs' ! i) \<le> risk_score (rs ! i)"
proof -
  from scores_of_raised_cell [where b = bird_density_col and w = water_proximity_col
      and h = healthcare_col and v = vulnerability_col and x' = x',
      OF tab wf i cell(1) others(2) avail]
  obtain t1 pop ar rs rs' where wf1: "wf_table t1" and n1: "nrows t1 = nrows t"
    and col1: "columns t1 c = Some col"
    and rs: "fst (calculate_risk_scores e population_col area_col bird_density_col
                  water_proximity_col healthcare_col vulnerability_col) = Inr rs"
    and rs': "fst (calculate_risk_scores (e\<lparr>zip_code_data := Some (set_cell t c i x')\<rparr>)
                  population_col area_col bird_density_col water_proximity_col healthcare_col
                  vulnerability_col) = Inr rs'"
    and rsi: "risk_score (rs ! i) =
              composite (risk_weights e)
                (min_max (map Some (map2 density_cell pop ar)) ! i)
                (factor_norm t1 bird_density_col ! i) (factor_norm t1 water_proximity_col ! i)
                (healthcare_contribution t1 healthcare_col ! i)
                (factor_norm t1 vulnerability_col ! i)"
    and rsi': "risk_score (rs' ! i) =
              composite (risk_weights e)
                (min_max (map Some (map2 density_cell
                   (if population_col = c then pop[i := Some x'] else pop) ar)) ! i)
                (factor_norm (set_cell t1 c i x') bird_density_col ! i)
                (factor_norm (set_cell t1 c i x') water_proximity_col ! i)
                (healthcare_contribution (set_cell t1 c i x') healthcare_col ! i)
                (factor_norm (set_cell t1 c i x') vulnerability_col ! i)"
    by blast
  from i n1 have i1: "i < nrows t1" by simp
  have hc: "healthcare_contribution (set_cell t1 c i x') healthcare_col ! i
              \<le> healthcare_contribution t1 healthcare_col ! i"
    by (rule healthcare_contribution_antimono [OF wf1 i1 col1 cell(2,3)])
  have pd: "min_max (map Some (map2 density_cell
                     (if population_col = c then pop[i := Some x'] else pop) ar)) ! i
              \<le> min_max (map Some (map2 density_cell pop ar)) ! i"
    using others(1) by simp
  have same: "factor_norm (set_cell t1 c i x') bird_density_col ! i
                \<le> factor_norm t1 bird_density_col ! i"
      "factor_norm (set_cell t1 c i x') water_proximity_col ! i
                \<le> factor_norm t1 water_proximity_col ! i"
      "factor_norm (set_cell t1 c i x') vulnerability_col ! i
                \<le> factor_norm t1 vulnerability_col ! i"
    using others(3-5) by (simp_all add: factor_norm_other [OF col1])
  have "risk_score (rs' ! i) \<le> risk_score (rs ! i)"
    unfolding rsi rsi' by (intro composite_mono weights pd same hc)
  with rs rs' show ?thesis by blast
qed

text \<open>The healthcare capacity of the first of three areas raised from 2 to 8, under
  the default weights.\<close>

theorem raising_healthcare_never_raises_score_witness:
  "\<exists>rs rs'.
     fst (calculate_risk_scores (init (Some full_table) None) ''population'' ''area_km2''
            (Some ''bird_density'') (Some ''water_proximity'') (Some ''healthcare_capacity'')
            (Some ''vulnerability_index'')) = Inr rs
   \<and> fst (calculate_risk_scores
            ((init (Some full_table) None)
               \<lparr>zip_code_data := Some (set_cell full_table ''healthcare_capacity'' 0 8)\<rparr>)
            ''population'' ''area_km2''
            (Some ''bird_density'') (Some ''water_proximity'') (Some ''healthcare_capacity'')
            (Some ''vulnerability_index'')) = Inr rs'
   \<and> risk_score (rs' ! 0) \<le> risk_score (rs ! 0)"
proof -
  have tab: "zip_code_data (init (Some full_table) None) = Some full_table"
    by (simp add: init_def Let_def)
  have row: "0 < nrows full_table" by (simp add: full_table_def)
  have cell: "columns full_table ''healthcare_capacity'' = Some [Some 2, Some 6, Some 10]"
    "[Some 2, Some 6, Some 10] ! 0 = Some (2::real)" "(2::real) \<le> 8"
    by (simp_all add: full_table_def)
  have others: "''healthcare_capacity'' \<noteq> ''population''" "''healthcare_capacity'' \<noteq> ''area_km2''"
    "Some ''bird_density'' \<noteq> Some ''healthcare_capacity''"
    "Some ''water_proximity'' \<noteq> Some ''healthcare_capacity''"
    "Some ''vulnerability_index'' \<noteq> Some ''healthcare_capacity''"
    by simp_all
  have avail: "columns full_table ''population'' \<noteq> None"
    "columns full_table ''area_km2'' \<noteq> None \<or> geometry full_table \<noteq> None"
    by (simp_all add: full_table_def)
  show ?thesis
    by (rule raising_healthcare_never_raises_score
          [OF tab wf_full_table row cell refl others default_engine_weights avail])
qed

text \<open>
  Raising a value can lower the score. With the areas 1, -2 and -1 the density of
  the second area is negative, and raising its population from 600 to 800 lowers its
  score from 1/25 to 1/50 under the default weights. With the weights 3 for the
  population density and -1 for the bird density, stored as 3/2 and -1/2, raising
  the bird density of the first area from 10 to 20 lowers its score from 5/24 to
  1/24.
\<close>

theorem raised_value_lowers_score:
  "map_sum id (\<lambda>rs. risk_score (rs ! 1))
     (fst (calculate_risk_scores (init (Some negative_area_table) None) ''population'' ''area_km2''
            (Some ''bird_density'') (Some ''water_proximity'') (Some ''healthcare_capacity'')
            (Some ''vulnerability_index''))) = Inr (1 / 25)
   \<and> map_sum id (\<lambda>rs. risk_score (rs ! 1))
     (fst (calculate_risk_scores
            (init (Some (set_cell negative_area_table ''population'' 1 800)) None)
            ''population'' ''area_km2''
            (Some ''bird_density'') (Some ''water_proximity'') (Some ''healthcare_capacity'')
            (Some ''vulnerability_index''))) = Inr (1 / 50)
   \<and> map_sum id (\<lambda>rs. risk_score (rs ! 0))
     (fst (calculate_risk_scores
            (init (Some bird_table) (Some [(''population_density'', 3), (''bird_density'', - 1)]))
            ''population'' ''area_km2''
            (Some ''bird_density'') (Some ''water_proximity'') (Some ''healthcare_capacity'')
            (Some ''vulnerability_index''))) = Inr (5 / 24)
   \<and> map_sum id (\<lambda>rs. risk_score (rs ! 0))
     (fst (calculate_risk_scores
            (init (Some (set_cell bird_table ''bird_density'' 0 20))
               (Some [(''population_density'', 3), (''bird_density'', - 1)]))
            ''population'' ''area_km2''
            (Some ''bird_density'') (Some ''water_proximity'') (Some ''healthcare_capacity'')
            (Some ''vulnerability_index''))) = Inr (1 / 24)"
  by (simp add: calculate_risk_scores_def init_def calculate_population_density_def
      ensure_area_column_def requested_column_def default_weights_def normalize_risk_factor_def
      min_max_def series_min_def series_max_def dropna_def fillna0_def density_cell_def
      optional_factor_def composite_def weight_get_def Let_def upt_rec set_cell_def
      negative_area_table_def bird_table_def)

text \<open>
  Claim C3, amended. In a loaded table whose population and area can be read, let \<open>c\<close>
  be any column other than the area column and the healthcare column: the
  population, the bird density, the water proximity or the vulnerability index.
  When the stored weights are not negative and, for \<open>c\<close> the population, the area of
  that row is not negative, raising the value of \<open>c\<close> for one area, every other cell
  as it is, gives a scoring that succeeds as the first one does, and the composite
  score of that area does not decrease.
\<close>

theorem raising_factor_never_lowers_score:
  assumes tab: "zip_code_data e = Some t" and wf: "wf_table t" and i: "i < nrows t"
    and cell: "columns t c = Some col" "col ! i = Some x" "x \<le> x'"
    and factor: "c \<noteq> area_col" "healthcare_col \<noteq> Some c"
    and area: "c = population_col \<longrightarrow> area_not_negative t area_col i"
    and weights: "\<forall>(k, w) \<in> set (risk_weights e). 0 \<le> w"
    and avail: "columns t population_col \<noteq> None"
               "columns t area_col \<noteq> None \<or> geometry t \<noteq> None"
  shows "\<exists>rs rs'.
           fst (calculate_risk_scores e population_col area_col bird_density_col
                  water_proximity_col healthcare_col vulnerability_col) = Inr rs
         \<and> fst (calculate_risk_scores (e\<lparr>zip_code_data := Some (set_cell t c i x')\<rparr>)
                  population_col area_col bird_density_col water_proximity_col healthcare_col
                  vulnerability_col) = Inr rs'
         \<and> risk_score (rs ! i) \<le> risk_score (rs' ! i)"
proof -
  from scores_of_raised_cell [where b = bird_density_col and w = water_proximity_col
      and h = healthcare_col and v = vulnerability_col and x' = x',
      OF tab wf i cell(1) factor(1) avail]
  obtain t1 pop ar rs rs' where t1: "ensure_area_column t area_col = Inr t1"
    and wf1: "wf_table t1" and n1: "nrows t1 = nrows t"
    and col1: "columns t1 c = Some col"
    and pop: "columns t1 population_col = Some pop" and ar: "columns t1 area_col = Some ar"
    and rs: "fst (calculate_risk_scores e population_col area_col bird_density_col
                  water_proximity_col healthcare_col vulnerability_col) = Inr rs"
    and rs': "fst (calculate_risk_scores (e\<lparr>zip_code_data := Some (set_cell t c i x')\<rparr>)
                  population_col area_col bird_density_col water_proximity_col healthcare_col
                  vulnerability_col) = Inr rs'"
    and rsi: "risk_score (rs ! i) =
              composite (risk_weights e)
                (min_max (map Some (map2 density_cell pop ar)) ! i)
                (factor_norm t1 bird_density_col ! i) (factor_norm t1 water_proximity_col ! i)
                (healthcare_contribution t1 healthcare_col ! i)
                (factor_norm t1 vulnerability_col ! i)"
    and rsi': "risk_score (rs' ! i) =
              composite (risk_weights e)
                (min_max (map Some (map2 density_cell
                   (if population_col = c then pop[i := Some x'] else pop) ar)) ! i)
                (factor_norm (set_cell t1 c i x') bird_density_col ! i)
                (factor_norm (set_cell t1 c i x') water_proximity_col ! i)
                (healthcare_contribution (set_cell t1 c i x') healthcare_col ! i)
                (factor_norm (set_cell t1 c i x') vulnerability_col ! i)"
    by blast
  from i n1 have i1: "i < nrows t1" by simp
  note up = factor_norm_mono [OF wf1 i1 col1 cell(2,3)]
  have hc: "healthcare_contribution t1 healthcare_col ! i
              \<le> healthcare_contribution (set_cell t1 c i x') healthcare_col ! i"
    using healthcare_contribution_other [OF col1 factor(2), of i x'] by simp
  have pd: "min_max (map Some (map2 density_cell pop ar)) ! i
              \<le> min_max (map Some (map2 density_cell
                     (if population_col = c then pop[i := Some x'] else pop) ar)) ! i"
  proof (cases "population_col = c")
    case True
    with pop col1 have pc: "pop = col" by simp
    from wf1 pop ar i1 have len: "i < length pop" "i < length ar"
      by (simp_all add: wf_table_column)
    from pc cell(2) have px: "pop ! i = Some x" by simp
    from True area have "area_not_negative t area_col i" by simp
    from area_not_negative_ensured [OF this t1 ar wf i]
    have "case ar ! i of Some y \<Rightarrow> 0 \<le> y | None \<Rightarrow> True" .
    from density_mono [OF len px cell(3) this] True show ?thesis by simp
  next
    case False
    then show ?thesis by simp
  qed
  have "risk_score (rs ! i) \<le> risk_score (rs' ! i)"
    unfolding rsi rsi' by (intro composite_mono weights pd up hc)
  with rs rs' show ?thesis by blast
qed

text \<open>The population of the first of three areas raised from 1000 to 3000, under the
  default weights.\<close>

theorem raising_factor_never_lowers_score_witness:
  "\<exists>rs rs'.
     fst (calculate_risk_scores (init (Some full_table) None) ''population'' ''area_km2''
            (Some ''bird_density'') (Some ''water_proximity'') (Some ''healthcare_capacity'')
            (Some ''vulnerability_index'')) = Inr rs
   \<and> fst (calculate_risk_scores
            ((init (Some full_table) None)
               \<lparr>zip_code_data := Some (set_cell full_table ''population'' 0 3000)\<rparr>)
            ''population'' ''area_km2''
            (Some ''bird_density'') (Some ''water_proximity'') (Some ''healthcare_capacity'')
            (Some ''vulnerability_index'')) = Inr rs'
   \<and> risk_score (rs ! 0) \<le> risk_score (rs' ! 0)"
proof -
  have tab: "zip_code_data (init (Some full_table) None) = Some full_table"
    by (simp add: init_def Let_def)
  have row: "0 < nrows full_table" by (simp add: full_table_def)
  have cell: "columns full_table ''population'' = Some [Some 1000, Some 5000, Some 2000]"
    "[Some 1000, Some 5000, Some 2000] ! 0 = Some (1000::real)" "(1000::real) \<le> 3000"
    by (simp_all add: full_table_def)
  have factor: "''population'' \<noteq> ''area_km2''" "Some ''healthcare_capacity'' \<noteq> Some ''population''"
    by simp_all
  have area: "''population'' = ''population'' \<longrightarrow> area_not_negative full_table ''area_km2'' 0"
    by (simp add: area_not_negative_def full_table_def)
  have avail: "columns full_table ''population'' \<noteq> None"
    "columns full_table ''area_km2'' \<noteq> None \<or> geometry full_table \<noteq> None"
    by (simp_all add: full_table_def)
  show ?thesis
    by (rule raising_factor_never_lowers_score
          [OF tab wf_full_table row cell factor area default_engine_weights avail])
qed

end
